theory Spec2Isabelle
  imports Main "HOL-Library.Sublist"
begin

section \<open>Python values and exceptions\<close>

text \<open>
  The service works on decoded JSON, that is on dynamically typed Python objects. They are
  modelled by one datatype. A dictionary is an association list whose keys are distinct, in
  insertion order; a string is a list of code points below 256. JSON numbers with a
  fractional part are outside the model.
\<close>

datatype pyval =
    PNone
  | PBool bool
  | PInt int
  | PStr string
  | PList "pyval list"
  | PDict "(string \<times> pyval) list"

datatype error =
    ValueError string
  | AttributeError string
  | TypeError string

text \<open>\<open>str(e)\<close> of an exception built from one message.\<close>

fun str_of_error :: "error \<Rightarrow> string" where
  "str_of_error (ValueError m) = m"
| "str_of_error (AttributeError m) = m"
| "str_of_error (TypeError m) = m"

fun is_ValueError :: "error \<Rightarrow> bool" where
  "is_ValueError (ValueError m) = True"
| "is_ValueError e = False"

section \<open>String methods used by the parser\<close>

text \<open>The code points below 256 for which \<open>str.isspace\<close> holds.\<close>

definition is_space :: "char \<Rightarrow> bool" where
  "is_space c = (let n = (of_char c :: nat) in
     (9 \<le> n \<and> n \<le> 13) \<or> (28 \<le> n \<and> n \<le> 32) \<or> n = 133 \<or> n = 160)"

text \<open>\<open>s.strip()\<close>: whitespace removed at both ends.\<close>

definition py_strip :: "string \<Rightarrow> string" where
  "py_strip s = rev (dropWhile is_space (rev (dropWhile is_space s)))"

text \<open>\<open>s.rstrip(chars)\<close>: every trailing character that occurs in \<open>chars\<close> is removed;
  \<open>chars\<close> is a set of characters, not a suffix.\<close>

definition py_rstrip :: "string \<Rightarrow> string \<Rightarrow> string" where
  "py_rstrip chars s = rev (dropWhile (\<lambda>c. c \<in> set chars) (rev s))"

section \<open>Regular expressions\<close>

text \<open>
  The fragment of Python's \<open>re\<close> syntax that the two patterns of \<open>parse_repo_url\<close>
  use: literals, character classes, greedy and lazy repetition of a class, a greedy
  optional part, capture groups (neither nested nor repeated) and the two anchors.
  Matching is by backtracking: \<open>rx_match\<close> returns every way to match from a position,
  in the order in which the backtracking matcher tries them, so the head of the list is
  the match that Python reports.
\<close>

datatype citem = Single char | Range char char

fun in_citem :: "char \<Rightarrow> citem \<Rightarrow> bool" where
  "in_citem c (Single d) = (c = d)"
| "in_citem c (Range lo hi) =
     ((of_char lo :: nat) \<le> of_char c \<and> (of_char c :: nat) \<le> of_char hi)"

text \<open>\<open>in_class negated items c\<close>: does \<open>c\<close> belong to \<open>[items]\<close>, or to
  \<open>[^items]\<close> when \<open>negated\<close>.\<close>

definition in_class :: "bool \<Rightarrow> citem list \<Rightarrow> char \<Rightarrow> bool" where
  "in_class negated items c = (list_ex (in_citem c) items \<noteq> negated)"

datatype rx =
    Lit string
  | Cls bool "citem list"
  | Plus bool "citem list"
  | PlusLazy bool "citem list"
  | Star bool "citem list"
  | Opt rx
  | Grp rx
  | Seq rx rx
  | Bol
  | Eol

text \<open>The length of the longest run of class members at the head of a string.\<close>

definition run_length :: "bool \<Rightarrow> citem list \<Rightarrow> string \<Rightarrow> nat" where
  "run_length negated items s = length (takeWhile (in_class negated items) s)"

text \<open>\<open>$\<close> without the MULTILINE flag: the end of the string, or just before a newline
  that ends the string.\<close>

definition at_eol :: "string \<Rightarrow> nat \<Rightarrow> bool" where
  "at_eol s pos = (pos = length s \<or> (pos + 1 = length s \<and> s ! pos = CHR 0x0A))"

text \<open>A match state is the position reached and the groups captured so far.\<close>

fun rx_match :: "rx \<Rightarrow> string \<Rightarrow> nat \<Rightarrow> string list \<Rightarrow> (nat \<times> string list) list" where
  "rx_match (Lit l) s pos caps =
     (if take (length l) (drop pos s) = l then [(pos + length l, caps)] else [])"
| "rx_match (Cls negated items) s pos caps =
     (if pos < length s \<and> in_class negated items (s ! pos) then [(pos + 1, caps)] else [])"
| "rx_match (Plus negated items) s pos caps =
     map (\<lambda>k. (pos + k, caps)) (rev [1 ..< Suc (run_length negated items (drop pos s))])"
| "rx_match (PlusLazy negated items) s pos caps =
     map (\<lambda>k. (pos + k, caps)) [1 ..< Suc (run_length negated items (drop pos s))]"
| "rx_match (Star negated items) s pos caps =
     map (\<lambda>k. (pos + k, caps)) (rev [0 ..< Suc (run_length negated items (drop pos s))])"
| "rx_match (Opt r) s pos caps = rx_match r s pos caps @ [(pos, caps)]"
| "rx_match (Grp r) s pos caps =
     map (\<lambda>(p, c). (p, c @ [take (p - pos) (drop pos s)])) (rx_match r s pos caps)"
| "rx_match (Seq r1 r2) s pos caps =
     concat (map (\<lambda>(p, c). rx_match r2 s p c) (rx_match r1 s pos caps))"
| "rx_match Bol s pos caps = (if pos = 0 then [(pos, caps)] else [])"
| "rx_match Eol s pos caps = (if at_eol s pos then [(pos, caps)] else [])"

text \<open>\<open>re.search(pattern, s)\<close> followed by \<open>match.groups()\<close>: the start positions are
  tried from left to right, the end of the string included, and the first position with a
  match decides.\<close>

fun search_from :: "rx \<Rightarrow> string \<Rightarrow> nat list \<Rightarrow> string list option" where
  "search_from r s [] = None"
| "search_from r s (i # is) =
     (case rx_match r s i [] of
        [] \<Rightarrow> search_from r s is
      | (p, caps) # rest \<Rightarrow> Some caps)"

definition re_search :: "rx \<Rightarrow> string \<Rightarrow> string list option" where
  "re_search r s = search_from r s [0 ..< Suc (length s)]"

section \<open>The repository identifier parser\<close>

text \<open>\<^verbatim>\<open>github\.com[:/]([^/]+)/([^/]+?)(?:\.git)?$\<close>\<close>

definition url_pattern :: rx where
  "url_pattern =
     Seq (Lit ''github.com'')
    (Seq (Cls False [Single CHR '':'', Single CHR ''/''])
    (Seq (Grp (Plus True [Single CHR ''/'']))
    (Seq (Lit ''/'')
    (Seq (Grp (PlusLazy True [Single CHR ''/'']))
    (Seq (Opt (Lit ''.git''))
         Eol)))))"

text \<open>\<^verbatim>\<open>^([a-zA-Z0-9][-a-zA-Z0-9]*)/([a-zA-Z0-9._-]+)$\<close>\<close>

definition alnum :: "citem list" where
  "alnum = [Range CHR ''a'' CHR ''z'', Range CHR ''A'' CHR ''Z'', Range CHR ''0'' CHR ''9'']"

definition short_pattern :: rx where
  "short_pattern =
     Seq Bol
    (Seq (Grp (Seq (Cls False alnum) (Star False (Single CHR ''-'' # alnum))))
    (Seq (Lit ''/'')
    (Seq (Grp (Plus False (alnum @ [Single CHR ''.'', Single CHR ''_'', Single CHR ''-''])))
         Eol)))"

definition patterns :: "rx list" where
  "patterns = [url_pattern, short_pattern]"

text \<open>The normalisation of the first line of \<open>parse_repo_url\<close>.\<close>

definition normalize_input :: "string \<Rightarrow> string" where
  "normalize_input repo_input = py_rstrip ''.git'' (py_rstrip ''/'' (py_strip repo_input))"

definition invalid_format_message :: "string \<Rightarrow> string" where
  "invalid_format_message repo_input =
     ''Invalid repository format: '' @ [CHR 0x27] @ repo_input @ [CHR 0x27] @ ''. '' @
     ''Expected: '' @ [CHR 0x27] @ ''owner/repo'' @ [CHR 0x27] @ '' or '' @
     [CHR 0x27] @ ''https://github.com/owner/repo'' @ [CHR 0x27]"

text \<open>The loop over the patterns; unpacking \<open>match.groups()\<close> into two names raises
  ValueError when the tuple has another length.\<close>

fun try_patterns :: "rx list \<Rightarrow> string \<Rightarrow> error + (string \<times> string)" where
  "try_patterns [] repo_input = Inl (ValueError (invalid_format_message repo_input))"
| "try_patterns (pattern # rest) repo_input =
     (case re_search pattern repo_input of
        None \<Rightarrow> try_patterns rest repo_input
      | Some [owner, repo] \<Rightarrow> Inr (owner, repo)
      | Some groups \<Rightarrow> Inl (ValueError ''not enough values to unpack''))"

definition parse_repo_url :: "string \<Rightarrow> error + (string \<times> string)" where
  "parse_repo_url repo_input = try_patterns patterns (normalize_input repo_input)"

section \<open>Operations on Python values\<close>

fun truthy :: "pyval \<Rightarrow> bool" where
  "truthy PNone = False"
| "truthy (PBool b) = b"
| "truthy (PInt n) = (n \<noteq> 0)"
| "truthy (PStr s) = (s \<noteq> [])"
| "truthy (PList xs) = (xs \<noteq> [])"
| "truthy (PDict kvs) = (kvs \<noteq> [])"

fun is_list :: "pyval \<Rightarrow> bool" where
  "is_list (PList xs) = True"
| "is_list v = False"

fun type_name :: "pyval \<Rightarrow> string" where
  "type_name PNone = ''NoneType''"
| "type_name (PBool b) = ''bool''"
| "type_name (PInt n) = ''int''"
| "type_name (PStr s) = ''str''"
| "type_name (PList xs) = ''list''"
| "type_name (PDict kvs) = ''dict''"

definition quoted :: "string \<Rightarrow> string" where
  "quoted s = [CHR 0x27] @ s @ [CHR 0x27]"

text \<open>Exceptions propagate through a sequence of evaluations: the first one wins.\<close>

definition bind_err :: "error + 'a \<Rightarrow> ('a \<Rightarrow> error + 'b) \<Rightarrow> error + 'b" where
  "bind_err m f = (case m of Inl e \<Rightarrow> Inl e | Inr v \<Rightarrow> f v)"

fun map_err :: "('a \<Rightarrow> error + 'b) \<Rightarrow> 'a list \<Rightarrow> error + 'b list" where
  "map_err f [] = Inr []"
| "map_err f (x # xs) =
     (case f x of
        Inl e \<Rightarrow> Inl e
      | Inr y \<Rightarrow> (case map_err f xs of Inl e \<Rightarrow> Inl e | Inr ys \<Rightarrow> Inr (y # ys)))"

text \<open>A dictionary display \<open>{k1: e1, k2: e2, ...}\<close>: the values are evaluated from left
  to right.\<close>

definition py_dict :: "(string \<times> (error + pyval)) list \<Rightarrow> error + pyval" where
  "py_dict fields =
     (case map_err (\<lambda>(k, m). case m of Inl e \<Rightarrow> Inl e | Inr v \<Rightarrow> Inr (k, v)) fields of
        Inl e \<Rightarrow> Inl e
      | Inr kvs \<Rightarrow> Inr (PDict kvs))"

text \<open>\<open>d.get(key, default)\<close>; only a dictionary has the method.\<close>

fun py_get :: "pyval \<Rightarrow> string \<Rightarrow> pyval \<Rightarrow> error + pyval" where
  "py_get (PDict kvs) key dflt =
     Inr (case map_of kvs key of None \<Rightarrow> dflt | Some v \<Rightarrow> v)"
| "py_get v key dflt =
     Inl (AttributeError (quoted (type_name v) @ '' object has no attribute '' @ quoted ''get''))"

text \<open>\<open>d.get(k1, {}).get(k2)\<close>\<close>

definition py_get2 :: "pyval \<Rightarrow> string \<Rightarrow> string \<Rightarrow> error + pyval" where
  "py_get2 d k1 k2 = bind_err (py_get d k1 (PDict [])) (\<lambda>inner. py_get inner k2 PNone)"

text \<open>The elements that a \<open>for\<close> clause ranges over.\<close>

fun py_iter :: "pyval \<Rightarrow> error + pyval list" where
  "py_iter (PList xs) = Inr xs"
| "py_iter (PDict kvs) = Inr (map (\<lambda>(k, v). PStr k) kvs)"
| "py_iter (PStr s) = Inr (map (\<lambda>c. PStr [c]) s)"
| "py_iter v = Inl (TypeError (quoted (type_name v) @ '' object is not iterable''))"

text \<open>\<open>key in v\<close> for a string \<open>key\<close>: a key of a dictionary, an element of a list, a
  substring of a string.\<close>

fun py_contains :: "string \<Rightarrow> pyval \<Rightarrow> error + bool" where
  "py_contains key (PDict kvs) = Inr (key \<in> set (map fst kvs))"
| "py_contains key (PList xs) = Inr (PStr key \<in> set xs)"
| "py_contains key (PStr s) = Inr (sublist key s)"
| "py_contains key v =
     Inl (TypeError (''argument of type '' @ quoted (type_name v) @ '' is not iterable''))"

text \<open>\<open>len(v)\<close>\<close>

fun py_len :: "pyval \<Rightarrow> error + pyval" where
  "py_len (PList xs) = Inr (PInt (int (length xs)))"
| "py_len (PDict kvs) = Inr (PInt (int (length kvs)))"
| "py_len (PStr s) = Inr (PInt (int (length s)))"
| "py_len v = Inl (TypeError (''object of type '' @ quoted (type_name v) @ '' has no len()''))"

text \<open>\<open>acc + v\<close> for an integer \<open>acc\<close>, as \<open>sum\<close> computes it: a Boolean counts as 0
  or 1 and no other kind of value can be added to an integer.\<close>

fun int_add :: "int \<Rightarrow> pyval \<Rightarrow> error + int" where
  "int_add acc (PInt n) = Inr (acc + n)"
| "int_add acc (PBool b) = Inr (acc + (if b then 1 else 0))"
| "int_add acc v =
     Inl (TypeError (''unsupported operand type(s) for +: '' @ quoted ''int'' @ '' and '' @
                     quoted (type_name v)))"

section \<open>The upstream API and the environment\<close>

text \<open>
  What one GET request can end in: a response with a status and a body that decodes to a
  value or fails to decode, a timeout, or another failure of the transport.
\<close>

datatype response =
    HttpResponse nat "pyval option"
  | RequestTimeout
  | RequestFailure string

text \<open>
  The environment of a request: the configured token (\<open>settings.github_token\<close>), the
  upstream API as a function of URL and query parameters, and the offset of local time
  from UTC in seconds at a given instant, which \<open>datetime.fromtimestamp\<close> takes from
  the platform.
\<close>

record environment =
  github_token :: "string option"
  http_get :: "string \<Rightarrow> (string \<times> pyval) list option \<Rightarrow> response"
  utc_offset :: "int \<Rightarrow> int"

definition base_url :: string where
  "base_url = ''https://api.github.com''"

text \<open>\<open>_make_request\<close>: the decoded body on status 200, None in every other case.\<close>

definition make_request :: "environment \<Rightarrow> string \<Rightarrow> (string \<times> pyval) list option \<Rightarrow> pyval" where
  "make_request env url params =
     (case http_get env url params of
        HttpResponse status body \<Rightarrow>
          if status = 200 then (case body of Some v \<Rightarrow> v | None \<Rightarrow> PNone)
          else if status = 404 then PNone
          else if status = 403 then PNone
          else PNone
      | RequestTimeout \<Rightarrow> PNone
      | RequestFailure msg \<Rightarrow> PNone)"

definition repos_url :: "string \<Rightarrow> string \<Rightarrow> string" where
  "repos_url owner repo = base_url @ ''/repos/'' @ owner @ ''/'' @ repo"

section \<open>The per-category fetchers\<close>

definition get_repo_info :: "environment \<Rightarrow> string \<Rightarrow> string \<Rightarrow> error + pyval" where
  "get_repo_info env owner repo = Inr (make_request env (repos_url owner repo) None)"

definition contributor_entry :: "pyval \<Rightarrow> error + pyval" where
  "contributor_entry c = py_dict
     [(''login'', py_get c ''login'' PNone),
      (''avatar_url'', py_get c ''avatar_url'' PNone),
      (''profile_url'', py_get c ''html_url'' PNone),
      (''contributions'', py_get c ''contributions'' (PInt 0)),
      (''type'', py_get c ''type'' (PStr ''User''))]"

definition get_contributors :: "environment \<Rightarrow> string \<Rightarrow> string \<Rightarrow> int \<Rightarrow> error + pyval" where
  "get_contributors env owner repo max_contributors =
     (let url = repos_url owner repo @ ''/contributors'';
          params = [(''per_page'', PInt max_contributors), (''anon'', PStr ''false'')];
          contributors = make_request env url (Some params)
      in if truthy contributors \<and> is_list contributors then
           bind_err (py_iter contributors) (\<lambda>cs.
           bind_err (map_err contributor_entry cs) (\<lambda>entries. Inr (PList entries)))
         else Inr (PList []))"

text \<open>The derived display state of one pull request.\<close>

datatype display = DOpen | DMerged | DClosed

fun display_name :: "display \<Rightarrow> string" where
  "display_name DOpen = ''open''"
| "display_name DMerged = ''merged''"
| "display_name DClosed = ''closed''"

text \<open>The branch that the loop body takes: \<open>pr_state\<close> is \<open>pr.get("state", "open")\<close>
  and \<open>is_merged\<close> is \<open>pr.get("merged_at") is not None\<close>.\<close>

definition classify :: "pyval \<Rightarrow> error + display" where
  "classify pr =
     bind_err (py_get pr ''state'' (PStr ''open'')) (\<lambda>pr_state.
     bind_err (py_get pr ''merged_at'' PNone) (\<lambda>merged_at.
       let is_merged = (merged_at \<noteq> PNone)
       in if pr_state = PStr ''open'' then Inr DOpen
          else if is_merged then Inr DMerged
          else Inr DClosed))"

definition author_of :: "pyval \<Rightarrow> error + pyval" where
  "author_of item = py_dict
     [(''login'', py_get2 item ''user'' ''login''),
      (''avatar_url'', py_get2 item ''user'' ''avatar_url''),
      (''profile_url'', py_get2 item ''user'' ''html_url'')]"

definition labels_of :: "pyval \<Rightarrow> error + pyval" where
  "labels_of item =
     bind_err (py_get item ''labels'' (PList [])) (\<lambda>labels.
     bind_err (py_iter labels) (\<lambda>ls.
     bind_err (map_err (\<lambda>label. py_get label ''name'' PNone) ls) (\<lambda>names.
       Inr (PList names))))"

definition pr_detail :: "pyval \<Rightarrow> display \<Rightarrow> error + pyval" where
  "pr_detail pr display_state = py_dict
     [(''number'', py_get pr ''number'' PNone),
      (''title'', py_get pr ''title'' PNone),
      (''state'', Inr (PStr (display_name display_state))),
      (''url'', py_get pr ''html_url'' PNone),
      (''created_at'', py_get pr ''created_at'' PNone),
      (''updated_at'', py_get pr ''updated_at'' PNone),
      (''author'', author_of pr),
      (''labels'', labels_of pr),
      (''comments'', py_get pr ''comments'' (PInt 0)),
      (''draft'', py_get pr ''draft'' (PBool False))]"

text \<open>The counters and the detail list that the loop over the pull requests updates.\<close>

record pr_acc =
  open_count :: int
  closed_count :: int
  merged_count :: int
  details :: "pyval list"

definition bump :: "display \<Rightarrow> pr_acc \<Rightarrow> pr_acc" where
  "bump d acc =
     (case d of
        DOpen \<Rightarrow> acc\<lparr>open_count := open_count acc + 1\<rparr>
      | DMerged \<Rightarrow> acc\<lparr>merged_count := merged_count acc + 1\<rparr>
      | DClosed \<Rightarrow> acc\<lparr>closed_count := closed_count acc + 1\<rparr>)"

fun pr_loop :: "pyval list \<Rightarrow> pr_acc \<Rightarrow> error + pr_acc" where
  "pr_loop [] acc = Inr acc"
| "pr_loop (pr # prs) acc =
     bind_err (classify pr) (\<lambda>display_state.
     bind_err (pr_detail pr display_state) (\<lambda>detail.
       pr_loop prs ((bump display_state acc)\<lparr>details := details (bump display_state acc) @ [detail]\<rparr>)))"

definition empty_pull_requests :: pyval where
  "empty_pull_requests =
     PDict [(''open'', PInt 0), (''closed'', PInt 0), (''merged'', PInt 0), (''total'', PInt 0),
            (''details'', PList [])]"

definition get_pull_requests ::
  "environment \<Rightarrow> string \<Rightarrow> string \<Rightarrow> string \<Rightarrow> int \<Rightarrow> error + pyval" where
  "get_pull_requests env owner repo state max_prs =
     (let url = repos_url owner repo @ ''/pulls'';
          params = [(''state'', PStr state), (''per_page'', PInt max_prs),
                    (''sort'', PStr ''updated''), (''direction'', PStr ''desc'')];
          prs = make_request env url (Some params)
      in if \<not> truthy prs \<or> \<not> is_list prs then Inr empty_pull_requests
         else
           bind_err (py_iter prs) (\<lambda>items.
           bind_err (pr_loop items \<lparr>open_count = 0, closed_count = 0, merged_count = 0, details = []\<rparr>)
             (\<lambda>acc.
           bind_err (py_len prs) (\<lambda>total.
             Inr (PDict [(''open'', PInt (open_count acc)),
                         (''closed'', PInt (closed_count acc)),
                         (''merged'', PInt (merged_count acc)),
                         (''total'', total),
                         (''details'', PList (details acc))])))))"

definition issue_detail :: "pyval \<Rightarrow> error + pyval" where
  "issue_detail i = py_dict
     [(''number'', py_get i ''number'' PNone),
      (''title'', py_get i ''title'' PNone),
      (''state'', py_get i ''state'' PNone),
      (''url'', py_get i ''html_url'' PNone),
      (''created_at'', py_get i ''created_at'' PNone),
      (''author'', author_of i),
      (''labels'', labels_of i),
      (''comments'', py_get i ''comments'' (PInt 0))]"

text \<open>\<open>[i for i in issues if "pull_request" not in i]\<close>\<close>

fun filter_issues :: "pyval list \<Rightarrow> error + pyval list" where
  "filter_issues [] = Inr []"
| "filter_issues (i # issues) =
     bind_err (py_contains ''pull_request'' i) (\<lambda>linked.
     bind_err (filter_issues issues) (\<lambda>rest.
       Inr (if \<not> linked then i # rest else rest)))"

text \<open>\<open>sum(1 for i in actual_issues if i.get("state") == wanted)\<close>\<close>

definition count_state :: "string \<Rightarrow> pyval list \<Rightarrow> error + int" where
  "count_state wanted actual_issues =
     bind_err (map_err (\<lambda>i. py_get i ''state'' PNone) actual_issues) (\<lambda>states.
       Inr (int (length (filter (\<lambda>st. st = PStr wanted) states))))"

definition empty_issues :: pyval where
  "empty_issues =
     PDict [(''open'', PInt 0), (''closed'', PInt 0), (''total'', PInt 0), (''details'', PList [])]"

definition get_issues ::
  "environment \<Rightarrow> string \<Rightarrow> string \<Rightarrow> string \<Rightarrow> int \<Rightarrow> error + pyval" where
  "get_issues env owner repo state max_issues =
     (let url = repos_url owner repo @ ''/issues'';
          params = [(''state'', PStr state), (''per_page'', PInt max_issues),
                    (''sort'', PStr ''updated''), (''direction'', PStr ''desc'')];
          issues = make_request env url (Some params)
      in if \<not> truthy issues \<or> \<not> is_list issues then Inr empty_issues
         else
           bind_err (py_iter issues) (\<lambda>items.
           bind_err (filter_issues items) (\<lambda>actual_issues.
           bind_err (count_state ''open'' actual_issues) (\<lambda>n_open.
           bind_err (count_state ''closed'' actual_issues) (\<lambda>n_closed.
           bind_err (map_err issue_detail actual_issues) (\<lambda>ds.
             Inr (PDict [(''open'', PInt n_open),
                         (''closed'', PInt n_closed),
                         (''total'', PInt (int (length actual_issues))),
                         (''details'', PList ds)])))))))"

section \<open>Calendar dates\<close>

text \<open>
  \<open>datetime.fromtimestamp(t).strftime("%Y-%m-%d")\<close>. The local date is the day number of
  \<open>t\<close> shifted by the local offset; the conversion of a proleptic Gregorian ordinal (day 1
  is 0001-01-01) to year, month and day follows the one of the standard library. The year
  is written with four digits.
\<close>

definition days_in_month :: "int list" where
  "days_in_month = [-1, 31, 28, 31, 30, 31, 30, 31, 31, 30, 31, 30, 31]"

definition days_before_month :: "int list" where
  "days_before_month = [-1, 0, 31, 59, 90, 120, 151, 181, 212, 243, 273, 304, 334]"

definition ord2ymd :: "int \<Rightarrow> int \<times> int \<times> int" where
  "ord2ymd ordinal =
     (let n = ordinal - 1;
          n400 = n div 146097; n = n mod 146097;
          n100 = n div 36524; n = n mod 36524;
          n4 = n div 1461; n = n mod 1461;
          n1 = n div 365; n = n mod 365;
          year = n400 * 400 + 1 + n100 * 100 + n4 * 4 + n1
      in if n1 = 4 \<or> n100 = 4 then (year - 1, 12, 31)
         else
           let leapyear = (n1 = 3 \<and> (n4 \<noteq> 24 \<or> n100 = 3));
               month = (n + 50) div 32;
               preceding = days_before_month ! nat month + (if month > 2 \<and> leapyear then 1 else 0)
           in if preceding > n then
                let month' = month - 1;
                    preceding' = preceding -
                      (days_in_month ! nat month' + (if month' = 2 \<and> leapyear then 1 else 0))
                in (year, month', n - preceding' + 1)
              else (year, month, n - preceding + 1))"

definition from_seconds :: "(int \<Rightarrow> int) \<Rightarrow> int \<Rightarrow> error + (int \<times> int \<times> int)" where
  "from_seconds offset t =
     (let ordinal = (t + offset t) div 86400 + 719163
      in if ordinal < 1 \<or> 3652059 < ordinal then Inl (ValueError ''year is out of range'')
         else Inr (ord2ymd ordinal))"

fun fromtimestamp :: "(int \<Rightarrow> int) \<Rightarrow> pyval \<Rightarrow> error + (int \<times> int \<times> int)" where
  "fromtimestamp offset (PInt t) = from_seconds offset t"
| "fromtimestamp offset (PBool b) = from_seconds offset (if b then 1 else 0)"
| "fromtimestamp offset v =
     Inl (TypeError (quoted (type_name v) @ '' object cannot be interpreted as an integer''))"

definition digit :: "nat \<Rightarrow> char" where
  "digit n = ''0123456789'' ! (n mod 10)"

definition pad2 :: "nat \<Rightarrow> string" where
  "pad2 n = [digit (n div 10), digit n]"

definition pad4 :: "nat \<Rightarrow> string" where
  "pad4 n = [digit (n div 1000), digit (n div 100), digit (n div 10), digit n]"

definition strftime_ymd :: "int \<times> int \<times> int \<Rightarrow> string" where
  "strftime_ymd date =
     (case date of (y, m, d) \<Rightarrow> pad4 (nat y) @ ''-'' @ pad2 (nat m) @ ''-'' @ pad2 (nat d))"

section \<open>Commit activity, languages and releases\<close>

definition week_date :: "environment \<Rightarrow> pyval \<Rightarrow> error + pyval" where
  "week_date env week =
     bind_err (py_get week ''week'' (PInt 0)) (\<lambda>stamp.
     bind_err (fromtimestamp (utc_offset env) stamp) (\<lambda>date.
       Inr (PStr (strftime_ymd date))))"

definition commit_week :: "environment \<Rightarrow> pyval \<Rightarrow> error + pyval" where
  "commit_week env week = py_dict
     [(''week'', week_date env week),
      (''total'', py_get week ''total'' (PInt 0)),
      (''days'', py_get week ''days'' (PList (replicate 7 (PInt 0))))]"

text \<open>\<open>activity[-12:] if len(activity) > 12 else activity\<close>\<close>

definition recent :: "'a list \<Rightarrow> 'a list" where
  "recent activity =
     (if length activity > 12 then drop (length activity - 12) activity else activity)"

definition get_commit_activity :: "environment \<Rightarrow> string \<Rightarrow> string \<Rightarrow> error + pyval" where
  "get_commit_activity env owner repo =
     (let url = repos_url owner repo @ ''/stats/commit_activity'';
          activity = make_request env url None
      in if truthy activity \<and> is_list activity then
           bind_err (py_iter activity) (\<lambda>weeks.
           bind_err (map_err (commit_week env) (recent weeks)) (\<lambda>entries. Inr (PList entries)))
         else Inr (PList []))"

definition get_languages :: "environment \<Rightarrow> string \<Rightarrow> string \<Rightarrow> error + pyval" where
  "get_languages env owner repo =
     (let url = repos_url owner repo @ ''/languages'';
          languages = make_request env url None
      in Inr (if truthy languages then languages else PDict []))"

definition release_entry :: "pyval \<Rightarrow> error + pyval" where
  "release_entry r = py_dict
     [(''tag_name'', py_get r ''tag_name'' PNone),
      (''name'', py_get r ''name'' PNone),
      (''published_at'', py_get r ''published_at'' PNone),
      (''url'', py_get r ''html_url'' PNone),
      (''prerelease'', py_get r ''prerelease'' (PBool False))]"

definition get_releases :: "environment \<Rightarrow> string \<Rightarrow> string \<Rightarrow> int \<Rightarrow> error + pyval" where
  "get_releases env owner repo max_releases =
     (let url = repos_url owner repo @ ''/releases'';
          params = [(''per_page'', PInt max_releases)];
          releases = make_request env url (Some params)
      in if truthy releases \<and> is_list releases then
           bind_err (py_iter releases) (\<lambda>rs.
           bind_err (map_err release_entry rs) (\<lambda>entries. Inr (PList entries)))
         else Inr (PList []))"

section \<open>The comprehensive fetch\<close>

text \<open>
  \<open>asyncio.gather(..., return_exceptions=True)\<close> hands back, for each fetcher, either its
  value or the exception it raised. The upstream API is a function of the request, so the
  order in which the seven fetchers run does not show in the results.
\<close>

record gathered =
  g_repo_info :: "error + pyval"
  g_contributors :: "error + pyval"
  g_pull_requests :: "error + pyval"
  g_issues :: "error + pyval"
  g_commit_activity :: "error + pyval"
  g_languages :: "error + pyval"
  g_releases :: "error + pyval"

definition gather :: "environment \<Rightarrow> string \<Rightarrow> string \<Rightarrow> gathered" where
  "gather env owner repo =
     \<lparr>g_repo_info = get_repo_info env owner repo,
      g_contributors = get_contributors env owner repo 30,
      g_pull_requests = get_pull_requests env owner repo ''all'' 50,
      g_issues = get_issues env owner repo ''all'' 50,
      g_commit_activity = get_commit_activity env owner repo,
      g_languages = get_languages env owner repo,
      g_releases = get_releases env owner repo 10\<rparr>"

text \<open>\<open>if isinstance(x, Exception): x = default\<close>\<close>

definition recover :: "pyval \<Rightarrow> error + pyval \<Rightarrow> pyval" where
  "recover dflt r = (case r of Inl e \<Rightarrow> dflt | Inr v \<Rightarrow> v)"

text \<open>\<open>sum(week.get("total", 0) for week in commit_activity)\<close>\<close>

fun sum_totals :: "int \<Rightarrow> pyval list \<Rightarrow> error + int" where
  "sum_totals acc [] = Inr acc"
| "sum_totals acc (week # weeks) =
     bind_err (py_get week ''total'' (PInt 0)) (\<lambda>total.
     bind_err (int_add acc total) (\<lambda>acc'. sum_totals acc' weeks))"

definition total_commits_of :: "pyval \<Rightarrow> error + pyval" where
  "total_commits_of commit_activity =
     (if truthy commit_activity then
        bind_err (py_iter commit_activity) (\<lambda>weeks.
        bind_err (sum_totals 0 weeks) (\<lambda>n. Inr (PInt n)))
      else Inr (PInt 0))"

definition license_name :: "pyval \<Rightarrow> error + pyval" where
  "license_name repo_info =
     bind_err (py_get repo_info ''license'' PNone) (\<lambda>license.
       if truthy license then py_get2 repo_info ''license'' ''name'' else Inr PNone)"

definition repository_section :: "pyval \<Rightarrow> error + pyval" where
  "repository_section repo_info = py_dict
     [(''name'', py_get repo_info ''name'' PNone),
      (''full_name'', py_get repo_info ''full_name'' PNone),
      (''description'', py_get repo_info ''description'' PNone),
      (''url'', py_get repo_info ''html_url'' PNone),
      (''stars'', py_get repo_info ''stargazers_count'' (PInt 0)),
      (''forks'', py_get repo_info ''forks_count'' (PInt 0)),
      (''watchers'', py_get repo_info ''watchers_count'' (PInt 0)),
      (''open_issues_count'', py_get repo_info ''open_issues_count'' (PInt 0)),
      (''default_branch'', py_get repo_info ''default_branch'' PNone),
      (''created_at'', py_get repo_info ''created_at'' PNone),
      (''updated_at'', py_get repo_info ''updated_at'' PNone),
      (''pushed_at'', py_get repo_info ''pushed_at'' PNone),
      (''topics'', py_get repo_info ''topics'' (PList [])),
      (''license'', license_name repo_info)]"

definition metrics_section :: "pyval \<Rightarrow> pyval \<Rightarrow> pyval \<Rightarrow> pyval \<Rightarrow> pyval \<Rightarrow> error + pyval" where
  "metrics_section repo_info contributors pull_requests issues total_commits = py_dict
     [(''total_contributors'', py_len contributors),
      (''total_commits_recent'', Inr total_commits),
      (''stars'', py_get repo_info ''stargazers_count'' (PInt 0)),
      (''forks'', py_get repo_info ''forks_count'' (PInt 0)),
      (''open_prs'', py_get pull_requests ''open'' (PInt 0)),
      (''open_issues'', py_get issues ''open'' (PInt 0))]"

definition not_found_message :: "string \<Rightarrow> string \<Rightarrow> string" where
  "not_found_message owner repo = ''Repository '' @ owner @ ''/'' @ repo @ '' not found''"

text \<open>What \<open>get_comprehensive_stats\<close> does with the seven gathered results.\<close>

definition assemble :: "string \<Rightarrow> string \<Rightarrow> gathered \<Rightarrow> error + pyval" where
  "assemble owner repo g =
     (let repo_info = recover PNone (g_repo_info g);
          contributors = recover (PList []) (g_contributors g);
          pull_requests = recover empty_pull_requests (g_pull_requests g);
          issues = recover empty_issues (g_issues g);
          commit_activity = recover (PList []) (g_commit_activity g);
          languages = recover (PDict []) (g_languages g);
          releases = recover (PList []) (g_releases g)
      in if \<not> truthy repo_info then Inl (ValueError (not_found_message owner repo))
         else
           bind_err (total_commits_of commit_activity) (\<lambda>total_commits.
             py_dict
               [(''status'', Inr (PStr ''success'')),
                (''repo'', Inr (PStr (owner @ ''/'' @ repo))),
                (''repository'', repository_section repo_info),
                (''contributors'', Inr contributors),
                (''pull_requests'', Inr pull_requests),
                (''issues'', Inr issues),
                (''commit_activity'', Inr commit_activity),
                (''languages'', Inr languages),
                (''releases'', Inr releases),
                (''metrics'',
                   metrics_section repo_info contributors pull_requests issues total_commits)]))"

text \<open>The \<open>except\<close> clause of \<open>get_comprehensive_stats\<close> logs and raises the same exception
  again.\<close>

definition get_comprehensive_stats :: "environment \<Rightarrow> string \<Rightarrow> string \<Rightarrow> error + pyval" where
  "get_comprehensive_stats env owner repo = assemble owner repo (gather env owner repo)"

section \<open>The request handler\<close>

datatype outcome = HTTPException nat string | Returned pyval

text \<open>The constructor of the service refuses to start without a token.\<close>

definition service_init :: "environment \<Rightarrow> error + unit" where
  "service_init env =
     (if (case github_token env of None \<Rightarrow> True | Some token \<Rightarrow> token = [])
      then Inl (ValueError ''GitHub token not configured in environment variables'')
      else Inr ())"

text \<open>The two outer \<open>except\<close> clauses for an exception that is not an HTTPException.\<close>

definition map_failure :: "error \<Rightarrow> outcome" where
  "map_failure e =
     (if is_ValueError e then HTTPException 404 (str_of_error e)
      else HTTPException 500 (''Failed to analyze repository: '' @ str_of_error e))"

definition analyze_repository :: "environment \<Rightarrow> string \<Rightarrow> outcome" where
  "analyze_repository env repo_url =
     (case parse_repo_url repo_url of
        Inl e \<Rightarrow>
          if is_ValueError e then HTTPException 400 (str_of_error e) else map_failure e
      | Inr (owner, repo) \<Rightarrow>
          (case bind_err (service_init env) (\<lambda>u. get_comprehensive_stats env owner repo) of
             Inl e \<Rightarrow> map_failure e
           | Inr result \<Rightarrow> Returned result))"

section \<open>Reference notions for the properties\<close>

text \<open>The classification as the specification words it: open when the raw state field
  equals "open", otherwise merged when a merge timestamp is present, otherwise closed.\<close>

definition stated_display :: "(string \<times> pyval) list \<Rightarrow> display" where
  "stated_display kvs =
     (if map_of kvs ''state'' = Some (PStr ''open'') then DOpen
      else if map_of kvs ''merged_at'' \<noteq> None \<and> map_of kvs ''merged_at'' \<noteq> Some PNone
      then DMerged
      else DClosed)"

text \<open>The same, with an item that has no state field counted as open.\<close>

definition display_of :: "(string \<times> pyval) list \<Rightarrow> display" where
  "display_of kvs =
     (if map_of kvs ''state'' = None \<or> map_of kvs ''state'' = Some (PStr ''open'') then DOpen
      else if map_of kvs ''merged_at'' \<noteq> None \<and> map_of kvs ''merged_at'' \<noteq> Some PNone
      then DMerged
      else DClosed)"

text \<open>How many items of a payload the loop body classifies as \<open>d\<close>.\<close>

definition count_display :: "display \<Rightarrow> pyval list \<Rightarrow> int" where
  "count_display d prs = int (length (filter (\<lambda>pr. classify pr = Inr d) prs))"

text \<open>The state in which the loop over the pull requests starts.\<close>

definition pr_acc0 :: pr_acc where
  "pr_acc0 = \<lparr>open_count = 0, closed_count = 0, merged_count = 0, details = []\<rparr>"

text \<open>The payloads that the pull-request and the issue fetcher receive.\<close>

definition pulls_payload :: "environment \<Rightarrow> string \<Rightarrow> string \<Rightarrow> string \<Rightarrow> int \<Rightarrow> pyval" where
  "pulls_payload env owner repo state max_prs =
     make_request env (repos_url owner repo @ ''/pulls'')
       (Some [(''state'', PStr state), (''per_page'', PInt max_prs),
              (''sort'', PStr ''updated''), (''direction'', PStr ''desc'')])"

definition issues_payload :: "environment \<Rightarrow> string \<Rightarrow> string \<Rightarrow> string \<Rightarrow> int \<Rightarrow> pyval" where
  "issues_payload env owner repo state max_issues =
     make_request env (repos_url owner repo @ ''/issues'')
       (Some [(''state'', PStr state), (''per_page'', PInt max_issues),
              (''sort'', PStr ''updated''), (''direction'', PStr ''desc'')])"

fun is_dict :: "pyval \<Rightarrow> bool" where
  "is_dict (PDict kvs) = True"
| "is_dict v = False"

text \<open>An object that has the key.\<close>

fun carries :: "string \<Rightarrow> pyval \<Rightarrow> bool" where
  "carries key (PDict kvs) = (key \<in> set (map fst kvs))"
| "carries key v = False"

text \<open>The value of a key of an object, None when the key is missing.\<close>

fun field :: "string \<Rightarrow> pyval \<Rightarrow> pyval" where
  "field key (PDict kvs) = (case map_of kvs key of None \<Rightarrow> PNone | Some v \<Rightarrow> v)"
| "field key v = PNone"

text \<open>The items of an issues payload without a pull-request linkage field.\<close>

definition genuine :: "pyval list \<Rightarrow> pyval list" where
  "genuine items = filter (\<lambda>i. \<not> carries ''pull_request'' i) items"

definition count_field :: "string \<Rightarrow> string \<Rightarrow> pyval list \<Rightarrow> int" where
  "count_field key wanted items =
     int (length (filter (\<lambda>i. field key i = PStr wanted) items))"

text \<open>An item whose user, when it has one, is an object and whose labels, when it has
  any, are a list of objects.\<close>

fun well_formed_item :: "pyval \<Rightarrow> bool" where
  "well_formed_item (PDict kvs) =
     ((case map_of kvs ''user'' of None \<Rightarrow> True | Some u \<Rightarrow> is_dict u) \<and>
      (case map_of kvs ''labels'' of
         None \<Rightarrow> True
       | Some (PList ls) \<Rightarrow> list_all is_dict ls
       | Some v \<Rightarrow> False))"
| "well_formed_item v = False"

text \<open>The payload that the commit-activity fetcher receives.\<close>

definition activity_payload :: "environment \<Rightarrow> string \<Rightarrow> string \<Rightarrow> pyval" where
  "activity_payload env owner repo =
     make_request env (repos_url owner repo @ ''/stats/commit_activity'') None"








text \<open>The payloads of the repository-info and the contributors fetcher.\<close>

definition repo_info_payload :: "environment \<Rightarrow> string \<Rightarrow> string \<Rightarrow> pyval" where
  "repo_info_payload env owner repo = make_request env (repos_url owner repo) None"

definition contributors_payload :: "environment \<Rightarrow> string \<Rightarrow> string \<Rightarrow> int \<Rightarrow> pyval" where
  "contributors_payload env owner repo max_contributors =
     make_request env (repos_url owner repo @ ''/contributors'')
       (Some [(''per_page'', PInt max_contributors), (''anon'', PStr ''false'')])"

text \<open>Repository info from which the repository section can be built: a non-empty object
  whose license is missing, null (or otherwise false) or an object.\<close>

fun well_formed_repo_info :: "pyval \<Rightarrow> bool" where
  "well_formed_repo_info (PDict kvs) =
     (kvs \<noteq> [] \<and>
      (case map_of kvs ''license'' of None \<Rightarrow> True | Some l \<Rightarrow> \<not> truthy l \<or> is_dict l))"
| "well_formed_repo_info v = False"

text \<open>The number of commits of a converted weekly bucket.\<close>

definition week_total :: "pyval \<Rightarrow> int" where
  "week_total week =
     (case field ''total'' week of PInt n \<Rightarrow> n | PBool b \<Rightarrow> (if b then 1 else 0) | _ \<Rightarrow> 0)"

text \<open>Commit activity whose totals are numbers (a missing total counts as 0).\<close>

fun countable_week :: "pyval \<Rightarrow> bool" where
  "countable_week (PDict kvs) =
     (case map_of kvs ''total'' of
        None \<Rightarrow> True | Some (PInt n) \<Rightarrow> True | Some (PBool b) \<Rightarrow> True | Some v \<Rightarrow> False)"
| "countable_week v = False"

fun countable :: "pyval \<Rightarrow> bool" where
  "countable (PList weeks) = list_all countable_week weeks"
| "countable v = False"


text \<open>A token that lets the constructor of the service pass.\<close>

definition token_configured :: "environment \<Rightarrow> bool" where
  "token_configured env = (case github_token env of None \<Rightarrow> False | Some token \<Rightarrow> token \<noteq> [])"

section \<open>Sample payloads and environments\<close>

definition sample_prs :: "pyval list" where
  "sample_prs =
     [PDict [(''number'', PInt 1), (''state'', PStr ''open''),
             (''merged_at'', PStr ''2024-03-01T10:00:00Z'')],
      PDict [(''number'', PInt 2), (''state'', PStr ''closed''),
             (''merged_at'', PStr ''2024-03-02T10:00:00Z'')],
      PDict [(''number'', PInt 3), (''state'', PStr ''closed''), (''merged_at'', PNone)]]"

definition sample_repo_info :: pyval where
  "sample_repo_info =
     PDict [(''name'', PStr ''hello''), (''full_name'', PStr ''octocat/hello''),
            (''html_url'', PStr ''https://github.com/octocat/hello''),
            (''stargazers_count'', PInt 42), (''forks_count'', PInt 7),
            (''license'', PDict [(''name'', PStr ''MIT License'')])]"

definition sample_contributors :: "pyval list" where
  "sample_contributors =
     [PDict [(''login'', PStr ''octocat''), (''contributions'', PInt 12)],
      PDict [(''login'', PStr ''hubot''), (''contributions'', PInt 3)]]"

definition sample_issues :: "pyval list" where
  "sample_issues =
     [PDict [(''number'', PInt 10), (''state'', PStr ''open''),
             (''pull_request'', PDict [(''url'', PStr ''https://api.github.com/repos/octocat/hello/pulls/10'')])],
      PDict [(''number'', PInt 11), (''state'', PStr ''open''),
             (''user'', PDict [(''login'', PStr ''octocat'')]),
             (''labels'', PList [PDict [(''name'', PStr ''bug'')]])]]"

text \<open>Twenty weekly buckets; week \<open>i\<close> starts \<open>i\<close> weeks after 2023-11-19 and has
  \<open>i + 1\<close> commits.\<close>

definition sample_week :: "nat \<Rightarrow> pyval" where
  "sample_week i =
     PDict [(''week'', PInt (1700352000 + 604800 * int i)), (''total'', PInt (int i + 1))]"

definition sample_activity :: "pyval list" where
  "sample_activity = map sample_week [0 ..< 20]"

definition sample_http_get :: "string \<Rightarrow> (string \<times> pyval) list option \<Rightarrow> response" where
  "sample_http_get url params =
     (if url = ''https://api.github.com/repos/octocat/hello''
        then HttpResponse 200 (Some sample_repo_info)
      else if url = ''https://api.github.com/repos/octocat/hello/contributors''
        then HttpResponse 200 (Some (PList sample_contributors))
      else if url = ''https://api.github.com/repos/octocat/hello/pulls''
        then HttpResponse 200 (Some (PList sample_prs))
      else if url = ''https://api.github.com/repos/octocat/hello/issues''
        then HttpResponse 200 (Some (PList sample_issues))
      else if url = ''https://api.github.com/repos/octocat/hello/stats/commit_activity''
        then HttpResponse 200 (Some (PList sample_activity))
      else if url = ''https://api.github.com/repos/octocat/hello/languages''
        then HttpResponse 200 (Some (PDict [(''Python'', PInt 120000)]))
      else HttpResponse 404 None)"

definition sample_env :: environment where
  "sample_env =
     \<lparr>github_token = Some ''token'', http_get = sample_http_get, utc_offset = (\<lambda>t. 0)\<rparr>"

text \<open>The environment with the token removed, with the contributors request timing out,
  and with the repository unknown upstream.\<close>

definition tokenless_env :: environment where
  "tokenless_env = sample_env\<lparr>github_token := None\<rparr>"


definition unknown_env :: environment where
  "unknown_env =
     sample_env\<lparr>http_get := (\<lambda>url params.
       if url = ''https://api.github.com/repos/octocat/hello'' then HttpResponse 404 None
       else sample_http_get url params)\<rparr>"


definition bare_env :: environment where
  "bare_env =
     sample_env\<lparr>http_get := (\<lambda>url params.
       if url = ''https://api.github.com/repos/octocat/hello''
       then HttpResponse 200 (Some sample_repo_info)
       else HttpResponse 404 None)\<rparr>"

section \<open>Properties of the parser\<close>

text \<open>
  Claim C1. A valid shorthand \<open>owner/repo\<close> should come back unchanged, and the URL forms of
  the same repository should give the same pair. The normalisation removes every trailing
  character among \<open>.\<close>, \<open>g\<close>, \<open>i\<close> and \<open>t\<close> rather than the suffix \<open>.git\<close>, so the
  repository \<open>rust-lang/rust\<close> loses the last letter of its name, in the shorthand and in
  the URL form alike, and the repository \<open>git/git\<close> is refused although it is a valid
  shorthand.
\<close>

theorem parse_repo_url_strips_repo_characters:
  "parse_repo_url ''rust-lang/rust'' = Inr (''rust-lang'', ''rus'') \<and>
   parse_repo_url ''https://github.com/rust-lang/rust.git'' = Inr (''rust-lang'', ''rus'') \<and>
   parse_repo_url ''git/git'' = Inl (ValueError (invalid_format_message ''git/''))"
  by code_simp

text \<open>On a repository whose name ends in none of these characters the shorthand and the
  URL forms, with and without the suffix and the trailing slash, give the same pair, in
  the case of the input.\<close>

lemma parse_repo_url_examples:
  "parse_repo_url ''octocat/Hello-World'' = Inr (''octocat'', ''Hello-World'')"
  "parse_repo_url ''https://github.com/octocat/Hello-World'' = Inr (''octocat'', ''Hello-World'')"
  "parse_repo_url ''https://github.com/octocat/Hello-World/'' = Inr (''octocat'', ''Hello-World'')"
  "parse_repo_url ''https://github.com/octocat/Hello-World.git'' = Inr (''octocat'', ''Hello-World'')"
  "parse_repo_url ''  git@github.com:octocat/Hello-World.git '' = Inr (''octocat'', ''Hello-World'')"
  by code_simp+

text \<open>
  Claim C9. When the normalised input matches neither the URL pattern nor the shorthand
  pattern, \<open>parse_repo_url\<close> raises the ValueError whose message is built from the
  normalised input; the message contains that input and both accepted syntaxes.
\<close>

theorem parse_repo_url_invalid_format:
  "re_search url_pattern (normalize_input s) = None \<and>
   re_search short_pattern (normalize_input s) = None \<longrightarrow>
   parse_repo_url s = Inl (ValueError (invalid_format_message (normalize_input s))) \<and>
   sublist (normalize_input s) (invalid_format_message (normalize_input s)) \<and>
   sublist ''owner/repo'' (invalid_format_message (normalize_input s)) \<and>
   sublist ''https://github.com/owner/repo'' (invalid_format_message (normalize_input s))"
proof
  assume h: "re_search url_pattern (normalize_input s) = None \<and>
             re_search short_pattern (normalize_input s) = None"
  let ?n = "normalize_input s"
  let ?head = "''Invalid repository format: '' @ [CHR 0x27]"
  let ?mid = "?head @ ?n @ [CHR 0x27] @ ''. '' @ ''Expected: '' @ [CHR 0x27]"
  have raised: "parse_repo_url s = Inl (ValueError (invalid_format_message ?n))"
    using h by (simp add: parse_repo_url_def patterns_def)
  have input: "sublist ?n (invalid_format_message ?n)"
    unfolding sublist_def invalid_format_message_def
    by (rule exI[of _ ?head], rule exI) simp
  have short: "sublist ''owner/repo'' (invalid_format_message ?n)"
    unfolding sublist_def invalid_format_message_def
    by (rule exI[of _ ?mid], rule exI) simp
  have url: "sublist ''https://github.com/owner/repo'' (invalid_format_message ?n)"
    unfolding sublist_def invalid_format_message_def
    by (rule exI[of _ "?mid @ ''owner/repo'' @ [CHR 0x27] @ '' or '' @ [CHR 0x27]"],
        rule exI[of _ "[CHR 0x27]"]) simp
  from raised input short url
  show "parse_repo_url s = Inl (ValueError (invalid_format_message ?n)) \<and>
        sublist ?n (invalid_format_message ?n) \<and>
        sublist ''owner/repo'' (invalid_format_message ?n) \<and>
        sublist ''https://github.com/owner/repo'' (invalid_format_message ?n)"
    by blast
qed

theorem parse_repo_url_invalid_format_witness:
  "re_search url_pattern (normalize_input ''not a valid repo'') = None \<and>
   re_search short_pattern (normalize_input ''not a valid repo'') = None \<and>
   normalize_input ''not a valid repo'' = ''not a valid repo'' \<and>
   parse_repo_url ''not a valid repo'' =
     Inl (ValueError (invalid_format_message ''not a valid repo'')) \<and>
   sublist ''not a valid repo'' (invalid_format_message ''not a valid repo'')"
proof -
  have n: "normalize_input ''not a valid repo'' = ''not a valid repo''"
    by code_simp
  have h1: "re_search url_pattern (normalize_input ''not a valid repo'') = None"
    by code_simp
  have h2: "re_search short_pattern (normalize_input ''not a valid repo'') = None"
    by code_simp
  show ?thesis
    using parse_repo_url_invalid_format [of "''not a valid repo''"] h1 h2 n by simp
qed

section \<open>Exceptions in sequences and dictionary displays\<close>

lemma bind_err_Inr: "bind_err m f = Inr v \<longleftrightarrow> (\<exists>x. m = Inr x \<and> f x = Inr v)"
  by (cases m) (auto simp: bind_err_def)

lemma bind_err_simps [simp]: "bind_err (Inr x) f = f x" "bind_err (Inl e) f = Inl e"
  by (simp_all add: bind_err_def)

section \<open>Properties of the pull-request fetcher\<close>

lemma classify_dict: "classify (PDict kvs) = Inr (display_of kvs)"
  by (auto simp: classify_def display_of_def Let_def split: option.splits)

lemma bump_counts:
  "open_count (bump d acc) = open_count acc + (if d = DOpen then 1 else 0)"
  "merged_count (bump d acc) = merged_count acc + (if d = DMerged then 1 else 0)"
  "closed_count (bump d acc) = closed_count acc + (if d = DClosed then 1 else 0)"
  "details (bump d acc) = details acc"
  by (cases d; simp add: bump_def)+

lemma pr_loop_counts:
  "pr_loop prs acc = Inr acc' \<Longrightarrow>
     open_count acc' = open_count acc + count_display DOpen prs \<and>
     merged_count acc' = merged_count acc + count_display DMerged prs \<and>
     closed_count acc' = closed_count acc + count_display DClosed prs"
proof (induction prs arbitrary: acc)
  case Nil
  then show ?case by (simp add: count_display_def)
next
  case (Cons pr prs)
  from Cons.prems obtain d det where d: "classify pr = Inr d"
    and det: "pr_detail pr d = Inr det"
    and rest: "pr_loop prs ((bump d acc)\<lparr>details := details (bump d acc) @ [det]\<rparr>) = Inr acc'"
    by (auto simp: bind_err_Inr)
  from Cons.IH[OF rest] d show ?case
    by (cases d) (simp_all add: bump_counts count_display_def)
qed

lemma pr_loop_details:
  "pr_loop prs acc = Inr acc' \<Longrightarrow>
     \<exists>ds. details acc' = details acc @ ds \<and> length ds = length prs \<and>
       (\<forall>i<length prs. \<exists>d. classify (prs ! i) = Inr d \<and> pr_detail (prs ! i) d = Inr (ds ! i))"
proof (induction prs arbitrary: acc)
  case Nil
  then show ?case by simp
next
  case (Cons pr prs)
  from Cons.prems obtain d det where d: "classify pr = Inr d"
    and det: "pr_detail pr d = Inr det"
    and rest: "pr_loop prs ((bump d acc)\<lparr>details := details (bump d acc) @ [det]\<rparr>) = Inr acc'"
    by (auto simp: bind_err_Inr)
  from Cons.IH[OF rest] obtain ds where ds: "details acc' = details acc @ [det] @ ds"
    "length ds = length prs"
    "\<forall>i<length prs. \<exists>d. classify (prs ! i) = Inr d \<and> pr_detail (prs ! i) d = Inr (ds ! i)"
    by (auto simp: bump_counts)
  show ?case
  proof (intro exI[of _ "det # ds"] conjI allI impI)
    show "details acc' = details acc @ det # ds" using ds(1) by simp
    show "length (det # ds) = length (pr # prs)" using ds(2) by simp
    fix i assume "i < length (pr # prs)"
    then show "\<exists>d. classify ((pr # prs) ! i) = Inr d \<and> pr_detail ((pr # prs) ! i) d = Inr ((det # ds) ! i)"
      using d det ds(3) by (cases i) auto
  qed
qed

lemma count_display_total:
  "\<forall>pr \<in> set prs. \<exists>d. classify pr = Inr d \<Longrightarrow>
   count_display DOpen prs + count_display DMerged prs + count_display DClosed prs = int (length prs)"
proof (induction prs)
  case Nil then show ?case by (simp add: count_display_def)
next
  case (Cons pr prs)
  then obtain d where "classify pr = Inr d" by auto
  with Cons show ?case by (cases d) (simp_all add: count_display_def)
qed


lemma map_err_Cons_Inr:
  "map_err f (x # xs) = Inr ys \<longleftrightarrow>
     (\<exists>y ys'. ys = y # ys' \<and> f x = Inr y \<and> map_err f xs = Inr ys')"
  by (auto split: sum.splits)

lemma map_err_Inr: "map_err f xs = Inr ys \<longleftrightarrow> list_all2 (\<lambda>x y. f x = Inr y) xs ys"
proof (induction xs arbitrary: ys)
  case Nil
  then show ?case by auto
next
  case (Cons x xs)
  show ?case
    unfolding map_err_Cons_Inr by (auto simp: Cons.IH list_all2_Cons1)
qed

lemma entry_Inr:
  "(case f of (k, m) \<Rightarrow> (case m of Inl e \<Rightarrow> Inl e | Inr v \<Rightarrow> Inr (k, v))) = Inr kv \<longleftrightarrow>
     fst kv = fst f \<and> snd f = Inr (snd kv)"
  by (cases f; cases kv) (auto split: sum.splits)

lemma py_dict_Inr:
  "py_dict fs = Inr v \<longleftrightarrow>
     (\<exists>kvs. v = PDict kvs \<and> list_all2 (\<lambda>f kv. fst kv = fst f \<and> snd f = Inr (snd kv)) fs kvs)"
proof -
  let ?g = "\<lambda>f. case f of (k, m) \<Rightarrow> (case m of Inl e \<Rightarrow> Inl e | Inr v \<Rightarrow> Inr (k, v))"
  have "\<And>kvs. list_all2 (\<lambda>f kv. fst kv = fst f \<and> snd f = Inr (snd kv)) fs kvs \<longleftrightarrow>
          map_err ?g fs = Inr kvs"
    by (simp add: map_err_Inr entry_Inr)
  then show ?thesis
    unfolding py_dict_def by (auto split: sum.splits)
qed

lemma pr_detail_state:
  "pr_detail pr d = Inr det \<Longrightarrow>
     \<exists>kvs. det = PDict kvs \<and> map_of kvs ''state'' = Some (PStr (display_name d))"
  unfolding pr_detail_def py_dict_Inr
  by (auto simp: list_all2_Cons1)

text \<open>
  Claim C2, amended. A pull-request item is classified open when its state field equals
  "open" or is missing (the loop reads the field with the default "open"), otherwise
  merged when it has a merge timestamp other than null, otherwise closed. The loop adds
  one to the counter of the class of each item and records the name of the class as the
  state of the item's detail.
\<close>

theorem pull_request_classification:
  "classify (PDict kvs) = Inr (display_of kvs) \<and>
   (pr_loop prs acc = Inr acc' \<longrightarrow>
      open_count acc' = open_count acc + count_display DOpen prs \<and>
      merged_count acc' = merged_count acc + count_display DMerged prs \<and>
      closed_count acc' = closed_count acc + count_display DClosed prs \<and>
      (\<exists>ds. details acc' = details acc @ ds \<and> length ds = length prs \<and>
         (\<forall>i<length prs. \<exists>d fs. classify (prs ! i) = Inr d \<and> ds ! i = PDict fs \<and>
            map_of fs ''state'' = Some (PStr (display_name d)))))"
proof (intro conjI impI)
  show "classify (PDict kvs) = Inr (display_of kvs)" by (rule classify_dict)
next
  assume run: "pr_loop prs acc = Inr acc'"
  from pr_loop_counts[OF run]
  show "open_count acc' = open_count acc + count_display DOpen prs"
    and "merged_count acc' = merged_count acc + count_display DMerged prs"
    and "closed_count acc' = closed_count acc + count_display DClosed prs"
    by simp_all
  from pr_loop_details[OF run] obtain ds where ds: "details acc' = details acc @ ds"
    "length ds = length prs"
    "\<forall>i<length prs. \<exists>d. classify (prs ! i) = Inr d \<and> pr_detail (prs ! i) d = Inr (ds ! i)"
    by blast
  have "\<forall>i<length prs. \<exists>d fs. classify (prs ! i) = Inr d \<and> ds ! i = PDict fs \<and>
            map_of fs ''state'' = Some (PStr (display_name d))"
  proof (intro allI impI)
    fix i assume "i < length prs"
    with ds(3) obtain d where d: "classify (prs ! i) = Inr d" "pr_detail (prs ! i) d = Inr (ds ! i)"
      by blast
    from pr_detail_state[OF d(2)] d(1)
    show "\<exists>d fs. classify (prs ! i) = Inr d \<and> ds ! i = PDict fs \<and>
            map_of fs ''state'' = Some (PStr (display_name d))" by blast
  qed
  with ds(1,2)
  show "\<exists>ds. details acc' = details acc @ ds \<and> length ds = length prs \<and>
         (\<forall>i<length prs. \<exists>d fs. classify (prs ! i) = Inr d \<and> ds ! i = PDict fs \<and>
            map_of fs ''state'' = Some (PStr (display_name d)))" by blast
qed

lemma sample_run: "case pr_loop sample_prs pr_acc0 of Inl e \<Rightarrow> False | Inr acc' \<Rightarrow> True"
  by code_simp

theorem pull_request_classification_witness:
  "\<exists>acc'. pr_loop sample_prs pr_acc0 = Inr acc' \<and>
     open_count acc' = 1 \<and> merged_count acc' = 1 \<and> closed_count acc' = 1 \<and>
     map (\<lambda>pr. classify pr) sample_prs = [Inr DOpen, Inr DMerged, Inr DClosed]"
proof -
  obtain acc' where run: "pr_loop sample_prs pr_acc0 = Inr acc'"
    using sample_run by (cases "pr_loop sample_prs pr_acc0") auto
  have c: "count_display DOpen sample_prs = 1" "count_display DMerged sample_prs = 1"
    "count_display DClosed sample_prs = 1"
    by code_simp+
  have m: "map (\<lambda>pr. classify pr) sample_prs = [Inr DOpen, Inr DMerged, Inr DClosed]"
    by code_simp
  from pull_request_classification[of "[]" sample_prs pr_acc0 acc'] run c m
  show ?thesis by (simp add: pr_acc0_def)
qed

text \<open>
  Claim C2 as stated fails on an item without a state field: the stated rule makes an item
  that is not reported open and carries a merge timestamp merged, the loop counts it open.
\<close>

theorem pull_request_stated_counterexample:
  "classify (PDict [(''number'', PInt 4), (''merged_at'', PStr ''2024-03-02T10:00:00Z'')]) \<noteq>
     Inr (stated_display [(''number'', PInt 4), (''merged_at'', PStr ''2024-03-02T10:00:00Z'')])"
  by code_simp

text \<open>
  Claim C10. Every result of \<open>get_pull_requests\<close> has counters that add up to its total,
  the total is the length of the detail list, and the details follow the payload: detail
  \<open>i\<close> is built from item \<open>i\<close>. When the payload is not a list the detail list is empty.
\<close>

theorem get_pull_requests_counts:
  "get_pull_requests env owner repo state max_prs = Inr r \<longrightarrow>
     (\<exists>n_open n_closed n_merged ds.
        r = PDict [(''open'', PInt n_open), (''closed'', PInt n_closed),
                   (''merged'', PInt n_merged), (''total'', PInt (int (length ds))),
                   (''details'', PList ds)] \<and>
        n_open + n_closed + n_merged = int (length ds) \<and>
        (\<forall>prs. pulls_payload env owner repo state max_prs = PList prs \<longrightarrow>
           length ds = length prs \<and>
           (\<forall>i<length prs. \<exists>d. classify (prs ! i) = Inr d \<and>
              pr_detail (prs ! i) d = Inr (ds ! i))) \<and>
        (\<not> is_list (pulls_payload env owner repo state max_prs) \<longrightarrow> ds = []))"
proof
  assume res: "get_pull_requests env owner repo state max_prs = Inr r"
  let ?payload = "pulls_payload env owner repo state max_prs"
  let ?goal = "\<exists>n_open n_closed n_merged ds.
        r = PDict [(''open'', PInt n_open), (''closed'', PInt n_closed),
                   (''merged'', PInt n_merged), (''total'', PInt (int (length ds))),
                   (''details'', PList ds)] \<and>
        n_open + n_closed + n_merged = int (length ds) \<and>
        (\<forall>prs. ?payload = PList prs \<longrightarrow>
           length ds = length prs \<and>
           (\<forall>i<length prs. \<exists>d. classify (prs ! i) = Inr d \<and>
              pr_detail (prs ! i) d = Inr (ds ! i))) \<and>
        (\<not> is_list ?payload \<longrightarrow> ds = [])"
  show ?goal
  proof (cases "truthy ?payload \<and> is_list ?payload")
    case False
    with res have r: "r = empty_pull_requests"
      by (auto simp: get_pull_requests_def pulls_payload_def Let_def)
    have "\<forall>prs. ?payload = PList prs \<longrightarrow> prs = []"
      using False by auto
    then show ?thesis
      unfolding r empty_pull_requests_def
      by (intro exI[of _ 0] exI[of _ "[]"]) auto
  next
    case True
    then obtain prs where prs: "?payload = PList prs" "prs \<noteq> []"
      by (cases ?payload) auto
    from res True prs obtain acc where run: "pr_loop prs pr_acc0 = Inr acc"
      and r: "r = PDict [(''open'', PInt (open_count acc)), (''closed'', PInt (closed_count acc)),
                   (''merged'', PInt (merged_count acc)), (''total'', PInt (int (length prs))),
                   (''details'', PList (details acc))]"
      by (auto simp: get_pull_requests_def pulls_payload_def Let_def bind_err_Inr pr_acc0_def)
    from pr_loop_details[OF run] obtain ds where ds: "details acc = ds" "length ds = length prs"
      "\<forall>i<length prs. \<exists>d. classify (prs ! i) = Inr d \<and> pr_detail (prs ! i) d = Inr (ds ! i)"
      by (auto simp: pr_acc0_def)
    have "\<forall>pr \<in> set prs. \<exists>d. classify pr = Inr d"
      using ds(3) by (metis in_set_conv_nth)
    from count_display_total[OF this] pr_loop_counts[OF run]
    have sum: "open_count acc + closed_count acc + merged_count acc = int (length prs)"
      by (simp add: pr_acc0_def)
    show ?thesis
      apply (rule exI[of _ "open_count acc"], rule exI[of _ "closed_count acc"],
          rule exI[of _ "merged_count acc"], rule exI[of _ ds])
      using r ds sum prs by simp
  qed
qed

lemma sample_pulls_run:
  "case get_pull_requests sample_env ''octocat'' ''hello'' ''all'' 50 of
     Inl e \<Rightarrow> False | Inr r \<Rightarrow> True"
  by code_simp

lemma sample_pulls_payload:
  "pulls_payload sample_env ''octocat'' ''hello'' ''all'' 50 = PList sample_prs"
  by code_simp

theorem get_pull_requests_counts_witness:
  "\<exists>r n_open n_closed n_merged ds.
     get_pull_requests sample_env ''octocat'' ''hello'' ''all'' 50 = Inr r \<and>
     r = PDict [(''open'', PInt n_open), (''closed'', PInt n_closed),
                (''merged'', PInt n_merged), (''total'', PInt (int (length ds))),
                (''details'', PList ds)] \<and>
     n_open + n_closed + n_merged = int (length ds) \<and>
     length ds = 3"
proof -
  obtain r where run: "get_pull_requests sample_env ''octocat'' ''hello'' ''all'' 50 = Inr r"
    using sample_pulls_run
    by (cases "get_pull_requests sample_env ''octocat'' ''hello'' ''all'' 50") auto
  have three: "length sample_prs = 3"
    by (simp add: sample_prs_def)
  from get_pull_requests_counts[of sample_env "''octocat''" "''hello''" "''all''" 50 r] run
  show ?thesis
    unfolding sample_pulls_payload using three by fastforce
qed

section \<open>Properties of the issue fetcher\<close>

lemma is_dict_cases: "is_dict v \<Longrightarrow> \<exists>kvs. v = PDict kvs"
  by (cases v) auto

lemma py_get_dict: "is_dict v \<Longrightarrow> py_get v key PNone = Inr (field key v)"
  by (cases v) auto

lemma filter_issues_dicts:
  "\<forall>i \<in> set items. is_dict i \<Longrightarrow> filter_issues items = Inr (genuine items)"
proof (induction items)
  case Nil
  then show ?case by (simp add: genuine_def)
next
  case (Cons i items)
  then obtain kvs where "i = PDict kvs" by (auto dest: is_dict_cases)
  with Cons show ?case by (simp add: genuine_def)
qed

lemma map_err_total:
  "\<forall>x \<in> set xs. f x = Inr (g x) \<Longrightarrow> map_err f xs = Inr (map g xs)"
  by (induction xs) simp_all

lemma count_state_dicts:
  "\<forall>i \<in> set items. is_dict i \<Longrightarrow>
     count_state wanted items = Inr (count_field ''state'' wanted items)"
proof -
  assume d: "\<forall>i \<in> set items. is_dict i"
  then have "map_err (\<lambda>i. py_get i ''state'' PNone) items = Inr (map (field ''state'') items)"
    by (intro map_err_total) (simp add: py_get_dict)
  then show ?thesis
    by (simp add: count_state_def count_field_def comp_def)
qed

lemma py_dict_total:
  "\<forall>f \<in> set fs. \<exists>v. snd f = Inr v \<Longrightarrow> \<exists>kvs. py_dict fs = Inr (PDict kvs)"
proof -
  assume a: "\<forall>f \<in> set fs. \<exists>v. snd f = Inr v"
  have "\<exists>kvs. list_all2 (\<lambda>f kv. fst kv = fst f \<and> snd f = Inr (snd kv)) fs kvs"
    using a
  proof (induction fs)
    case Nil then show ?case by simp
  next
    case (Cons f fs)
    then obtain v kvs where "snd f = Inr v"
      "list_all2 (\<lambda>f kv. fst kv = fst f \<and> snd f = Inr (snd kv)) fs kvs" by auto
    then have "list_all2 (\<lambda>f kv. fst kv = fst f \<and> snd f = Inr (snd kv)) (f # fs) ((fst f, v) # kvs)"
      by simp
    then show ?case by blast
  qed
  then show ?thesis by (simp add: py_dict_Inr)
qed

lemma author_of_total:
  "well_formed_item i \<Longrightarrow> \<exists>v. author_of i = Inr v"
proof -
  assume wf: "well_formed_item i"
  then obtain kvs where i: "i = PDict kvs" by (cases i) auto
  have "\<And>k. \<exists>v. py_get2 i ''user'' k = Inr v"
    using wf unfolding i py_get2_def
    by (auto split: option.splits dest!: is_dict_cases)
  then obtain kvs' where "author_of i = Inr (PDict kvs')"
    unfolding author_of_def using py_dict_total[of "[(''login'', py_get2 i ''user'' ''login''),
      (''avatar_url'', py_get2 i ''user'' ''avatar_url''),
      (''profile_url'', py_get2 i ''user'' ''html_url'')]"] by auto
  then show ?thesis by blast
qed

lemma names_total:
  "list_all is_dict ls \<Longrightarrow> \<exists>names. map_err (\<lambda>label. py_get label ''name'' PNone) ls = Inr names"
  using map_err_total[of ls "\<lambda>label. py_get label ''name'' PNone" "field ''name''"]
  by (auto simp: list_all_iff py_get_dict)

lemma labels_of_total:
  "well_formed_item i \<Longrightarrow> \<exists>v. labels_of i = Inr v"
proof -
  assume wf: "well_formed_item i"
  then obtain kvs where i: "i = PDict kvs" by (cases i) auto
  show ?thesis
  proof (cases "map_of kvs ''labels''")
    case None
    then show ?thesis by (simp add: i labels_of_def)
  next
    case (Some v)
    with wf i obtain ls where v: "v = PList ls" "list_all is_dict ls"
      by (cases v) auto
    from names_total[OF v(2)] Some v(1) show ?thesis
      by (auto simp: i labels_of_def)
  qed
qed

lemma issue_detail_total:
  "well_formed_item i \<Longrightarrow> \<exists>v. issue_detail i = Inr v"
proof -
  assume wf: "well_formed_item i"
  then obtain kvs where i: "i = PDict kvs" by (cases i) auto
  from author_of_total[OF wf] labels_of_total[OF wf]
  have "\<exists>kvs'. issue_detail i = Inr (PDict kvs')"
    unfolding issue_detail_def
    by (intro py_dict_total) (auto simp: i)
  then show ?thesis by blast
qed

lemma map_err_exists:
  "\<forall>x \<in> set xs. \<exists>y. f x = Inr y \<Longrightarrow> \<exists>ys. map_err f xs = Inr ys"
  by (induction xs) auto


text \<open>
  Claim C6. On a payload of objects, \<open>get_issues\<close> counts and details only the items
  without a pull-request linkage field: the total is their number, the open and closed
  counters count their states, and the details are built from them in order. The fetcher
  returns whenever those items are well formed.
\<close>

theorem get_issues_excludes_pull_requests:
  "issues_payload env owner repo state max_issues = PList items \<and>
   (\<forall>i \<in> set items. is_dict i) \<longrightarrow>
     (\<forall>r. get_issues env owner repo state max_issues = Inr r \<longrightarrow>
        (\<exists>ds. r = PDict [(''open'', PInt (count_field ''state'' ''open'' (genuine items))),
                         (''closed'', PInt (count_field ''state'' ''closed'' (genuine items))),
                         (''total'', PInt (int (length (genuine items)))),
                         (''details'', PList ds)] \<and>
              list_all2 (\<lambda>i d. issue_detail i = Inr d) (genuine items) ds)) \<and>
     ((\<forall>i \<in> set (genuine items). well_formed_item i) \<longrightarrow>
        (\<exists>r. get_issues env owner repo state max_issues = Inr r))"
proof (intro impI, elim conjE)
  assume payload: "issues_payload env owner repo state max_issues = PList items"
    and dicts: "\<forall>i \<in> set items. is_dict i"
  let ?g = "genuine items"
  let ?result = "\<lambda>ds. PDict [(''open'', PInt (count_field ''state'' ''open'' ?g)),
                         (''closed'', PInt (count_field ''state'' ''closed'' ?g)),
                         (''total'', PInt (int (length ?g))),
                         (''details'', PList ds)]"
  have gd: "\<forall>i \<in> set ?g. is_dict i"
    using dicts by (simp add: genuine_def)
  have eq: "get_issues env owner repo state max_issues =
              bind_err (map_err issue_detail ?g) (\<lambda>ds. Inr (?result ds))"
  proof (cases "items = []")
    case True
    then show ?thesis
      using payload
      by (simp add: get_issues_def issues_payload_def Let_def empty_issues_def genuine_def
          count_field_def)
  next
    case False
    then show ?thesis
      using payload
      by (simp add: get_issues_def issues_payload_def Let_def filter_issues_dicts[OF dicts]
          count_state_dicts[OF gd])
  qed
  show "(\<forall>r. get_issues env owner repo state max_issues = Inr r \<longrightarrow>
        (\<exists>ds. r = ?result ds \<and> list_all2 (\<lambda>i d. issue_detail i = Inr d) ?g ds)) \<and>
     ((\<forall>i \<in> set ?g. well_formed_item i) \<longrightarrow>
        (\<exists>r. get_issues env owner repo state max_issues = Inr r))"
  proof (intro conjI allI impI)
    fix r assume "get_issues env owner repo state max_issues = Inr r"
    then show "\<exists>ds. r = ?result ds \<and> list_all2 (\<lambda>i d. issue_detail i = Inr d) ?g ds"
      unfolding eq by (auto simp: bind_err_Inr map_err_Inr)
  next
    assume "\<forall>i \<in> set ?g. well_formed_item i"
    then have "\<forall>i \<in> set ?g. \<exists>d. issue_detail i = Inr d"
      by (simp add: issue_detail_total)
    from map_err_exists[OF this] show "\<exists>r. get_issues env owner repo state max_issues = Inr r"
      unfolding eq by auto
  qed
qed

lemma sample_issues_payload:
  "issues_payload sample_env ''octocat'' ''hello'' ''all'' 50 = PList sample_issues"
  by code_simp

lemma sample_issues_facts:
  "list_all is_dict sample_issues"
  "genuine sample_issues = [sample_issues ! 1]"
  "count_field ''state'' ''open'' (genuine sample_issues) = 1"
  "count_field ''state'' ''closed'' (genuine sample_issues) = 0"
  "list_all well_formed_item (genuine sample_issues)"
  by code_simp+

theorem get_issues_excludes_pull_requests_witness:
  "issues_payload sample_env ''octocat'' ''hello'' ''all'' 50 = PList sample_issues \<and>
   list_all is_dict sample_issues \<and>
   carries ''pull_request'' (sample_issues ! 0) \<and>
   \<not> carries ''pull_request'' (sample_issues ! 1) \<and>
   (\<exists>r d. get_issues sample_env ''octocat'' ''hello'' ''all'' 50 = Inr r \<and>
      r = PDict [(''open'', PInt 1), (''closed'', PInt 0), (''total'', PInt 1),
                 (''details'', PList [d])] \<and>
      issue_detail (sample_issues ! 1) = Inr d)"
proof -
  have dicts: "\<forall>i \<in> set sample_issues. is_dict i"
    using sample_issues_facts(1) by (simp add: list_all_iff)
  have wf: "\<forall>i \<in> set (genuine sample_issues). well_formed_item i"
    using sample_issues_facts(5) by (simp add: list_all_iff)
  have c: "carries ''pull_request'' (sample_issues ! 0)"
    "\<not> carries ''pull_request'' (sample_issues ! 1)"
    by code_simp+
  from get_issues_excludes_pull_requests[of sample_env "''octocat''" "''hello''" "''all''" 50
      sample_issues] sample_issues_payload dicts wf
  obtain r where r: "get_issues sample_env ''octocat'' ''hello'' ''all'' 50 = Inr r"
    and "\<exists>ds. r = PDict [(''open'', PInt (count_field ''state'' ''open'' (genuine sample_issues))),
                         (''closed'', PInt (count_field ''state'' ''closed'' (genuine sample_issues))),
                         (''total'', PInt (int (length (genuine sample_issues)))),
                         (''details'', PList ds)] \<and>
              list_all2 (\<lambda>i d. issue_detail i = Inr d) (genuine sample_issues) ds"
    by blast
  then obtain d where "r = PDict [(''open'', PInt 1), (''closed'', PInt 0), (''total'', PInt 1),
                 (''details'', PList [d])]" "issue_detail (sample_issues ! 1) = Inr d"
    unfolding sample_issues_facts(3,4) unfolding sample_issues_facts(2)
    by (auto simp: list_all2_Cons1)
  with r sample_issues_payload sample_issues_facts(1) c show ?thesis by blast
qed

section \<open>Properties of the commit-activity fetcher\<close>





























section \<open>Properties of the comprehensive fetch\<close>

lemma recover_simps [simp]: "recover dflt (Inl e) = dflt" "recover dflt (Inr v) = v"
  by (simp_all add: recover_def)

lemma sum_totals_value:
  "sum_totals acc weeks = Inr n \<Longrightarrow> n = acc + sum_list (map week_total weeks)"
proof (induction weeks arbitrary: acc)
  case Nil
  then show ?case by simp
next
  case (Cons week weeks)
  from Cons.prems obtain total acc' where t: "py_get week ''total'' (PInt 0) = Inr total"
    and a: "int_add acc total = Inr acc'" and rest: "sum_totals acc' weeks = Inr n"
    by (auto simp: bind_err_Inr)
  from t obtain kvs where week: "week = PDict kvs" by (cases week) auto
  have "acc' = acc + week_total week"
  proof (cases "map_of kvs ''total''")
    case None
    with t a week show ?thesis by (auto simp: week_total_def)
  next
    case (Some v)
    with t a week show ?thesis by (cases v) (auto simp: week_total_def)
  qed
  with Cons.IH[OF rest] show ?case by simp
qed

lemma sum_totals_countable:
  "list_all countable_week weeks \<Longrightarrow> \<exists>n. sum_totals acc weeks = Inr n"
proof (induction weeks arbitrary: acc)
  case Nil
  then show ?case by simp
next
  case (Cons week weeks)
  then obtain kvs where week: "week = PDict kvs" by (cases week) auto
  from Cons.prems week obtain acc' where
    "bind_err (py_get week ''total'' (PInt 0)) (int_add acc) = Inr acc'"
    by (cases "map_of kvs ''total''"; cases "the (map_of kvs ''total'')") auto
  moreover from Cons obtain n where "sum_totals acc' weeks = Inr n" by auto
  ultimately show ?case by (auto simp: bind_err_Inr)
qed

lemma total_commits_of_value:
  "total_commits_of (PList weeks) = Inr v \<Longrightarrow> v = PInt (sum_list (map week_total weeks))"
  by (cases "weeks = []") (auto simp: total_commits_of_def bind_err_Inr dest: sum_totals_value)

lemma total_commits_of_countable:
  "countable ca \<Longrightarrow> \<exists>v. total_commits_of ca = Inr v"
proof -
  assume c: "countable ca"
  then obtain weeks where ca: "ca = PList weeks" "list_all countable_week weeks"
    by (cases ca) auto
  from sum_totals_countable[OF ca(2), of 0] show ?thesis
    by (auto simp: ca total_commits_of_def)
qed

lemma license_name_total:
  "well_formed_repo_info info \<Longrightarrow> \<exists>v. license_name info = Inr v"
proof -
  assume wf: "well_formed_repo_info info"
  then obtain kvs where info: "info = PDict kvs" by (cases info) auto
  show ?thesis
  proof (cases "map_of kvs ''license''")
    case None
    then show ?thesis by (simp add: info license_name_def)
  next
    case (Some l)
    show ?thesis
    proof (cases "truthy l")
      case False
      with Some show ?thesis by (simp add: info license_name_def)
    next
      case True
      with wf Some info obtain lk where "l = PDict lk" by (cases l) auto
      with Some True show ?thesis by (simp add: info license_name_def py_get2_def)
    qed
  qed
qed

lemma repository_section_total:
  "well_formed_repo_info info \<Longrightarrow> \<exists>kvs. repository_section info = Inr (PDict kvs)"
proof -
  assume wf: "well_formed_repo_info info"
  then obtain kvs where info: "info = PDict kvs" by (cases info) auto
  from license_name_total[OF wf] show ?thesis
    unfolding repository_section_def
    by (intro py_dict_total) (auto simp: info)
qed


lemma get_contributors_shape:
  "get_contributors env owner repo n = Inr v \<Longrightarrow> \<exists>cs. v = PList cs"
  by (auto simp: get_contributors_def Let_def bind_err_Inr split: if_splits)

lemma get_commit_activity_shape:
  "get_commit_activity env owner repo = Inr v \<Longrightarrow> \<exists>ws. v = PList ws"
  by (auto simp: get_commit_activity_def Let_def bind_err_Inr split: if_splits)

lemma get_pull_requests_shape:
  "get_pull_requests env owner repo state n = Inr v \<Longrightarrow>
     \<exists>kvs a. v = PDict kvs \<and> map_of kvs ''open'' = Some (PInt a)"
  by (auto simp: get_pull_requests_def Let_def bind_err_Inr empty_pull_requests_def
      split: if_splits)

lemma get_issues_shape:
  "get_issues env owner repo state n = Inr v \<Longrightarrow>
     \<exists>kvs a. v = PDict kvs \<and> map_of kvs ''open'' = Some (PInt a)"
  by (auto simp: get_issues_def Let_def bind_err_Inr empty_issues_def split: if_splits)

text \<open>The values that \<open>assemble\<close> works with, whatever the fetchers did.\<close>

lemma recovered_contributors:
  "\<exists>cs. recover (PList []) (get_contributors env owner repo n) = PList cs"
  by (cases "get_contributors env owner repo n") (auto dest: get_contributors_shape)

lemma recovered_commit_activity:
  "\<exists>ws. recover (PList []) (get_commit_activity env owner repo) = PList ws"
  by (cases "get_commit_activity env owner repo") (auto dest: get_commit_activity_shape)

lemma recovered_pull_requests:
  "\<exists>kvs a. recover empty_pull_requests (get_pull_requests env owner repo state n) = PDict kvs \<and>
     map_of kvs ''open'' = Some (PInt a)"
  by (cases "get_pull_requests env owner repo state n")
    (auto dest: get_pull_requests_shape simp: empty_pull_requests_def)

lemma recovered_issues:
  "\<exists>kvs a. recover empty_issues (get_issues env owner repo state n) = PDict kvs \<and>
     map_of kvs ''open'' = Some (PInt a)"
  by (cases "get_issues env owner repo state n")
    (auto dest: get_issues_shape simp: empty_issues_def)

lemma metrics_section_value:
  assumes "map_of pulls ''open'' = Some n_prs" "map_of issues ''open'' = Some n_issues"
    and "is_dict info"
  shows "metrics_section info (PList cs) (PDict pulls) (PDict issues) tc =
           Inr (PDict [(''total_contributors'', PInt (int (length cs))),
                       (''total_commits_recent'', tc),
                       (''stars'', case map_of (case info of PDict kvs \<Rightarrow> kvs) ''stargazers_count'' of
                                     None \<Rightarrow> PInt 0 | Some v \<Rightarrow> v),
                       (''forks'', case map_of (case info of PDict kvs \<Rightarrow> kvs) ''forks_count'' of
                                     None \<Rightarrow> PInt 0 | Some v \<Rightarrow> v),
                       (''open_prs'', n_prs),
                       (''open_issues'', n_issues)])"
  using assms by (cases info) (simp_all add: metrics_section_def py_dict_def)


lemma repository_section_dict:
  "repository_section info = Inr v \<Longrightarrow> is_dict info"
  by (cases info) (auto simp: repository_section_def py_dict_def split: sum.splits)

text \<open>The shape of every successful result.\<close>

lemma stats_result:
  assumes "get_comprehensive_stats env owner repo = Inr r"
  shows "\<exists>info repository cs pulls issues ws n_prs n_issues stars forks.
     repo_info_payload env owner repo = info \<and> truthy info \<and>
     repository_section info = Inr repository \<and>
     recover (PList []) (get_contributors env owner repo 30) = PList cs \<and>
     recover empty_pull_requests (get_pull_requests env owner repo ''all'' 50) = PDict pulls \<and>
     map_of pulls ''open'' = Some n_prs \<and>
     recover empty_issues (get_issues env owner repo ''all'' 50) = PDict issues \<and>
     map_of issues ''open'' = Some n_issues \<and>
     recover (PList []) (get_commit_activity env owner repo) = PList ws \<and>
     r = PDict
       [(''status'', PStr ''success''),
        (''repo'', PStr (owner @ ''/'' @ repo)),
        (''repository'', repository),
        (''contributors'', PList cs),
        (''pull_requests'', PDict pulls),
        (''issues'', PDict issues),
        (''commit_activity'', PList ws),
        (''languages'', recover (PDict []) (get_languages env owner repo)),
        (''releases'', recover (PList []) (get_releases env owner repo 10)),
        (''metrics'',
           PDict [(''total_contributors'', PInt (int (length cs))),
                  (''total_commits_recent'', PInt (sum_list (map week_total ws))),
                  (''stars'', stars), (''forks'', forks),
                  (''open_prs'', n_prs), (''open_issues'', n_issues)])]"
proof -
  let ?info = "repo_info_payload env owner repo"
  obtain cs where cs: "recover (PList []) (get_contributors env owner repo 30) = PList cs"
    using recovered_contributors by blast
  obtain ws where ws: "recover (PList []) (get_commit_activity env owner repo) = PList ws"
    using recovered_commit_activity by blast
  obtain pulls n_prs where pulls:
    "recover empty_pull_requests (get_pull_requests env owner repo ''all'' 50) = PDict pulls"
    "map_of pulls ''open'' = Some (PInt n_prs)"
    using recovered_pull_requests by blast
  obtain issues n_issues where issues:
    "recover empty_issues (get_issues env owner repo ''all'' 50) = PDict issues"
    "map_of issues ''open'' = Some (PInt n_issues)"
    using recovered_issues by blast
  have info: "recover PNone (g_repo_info (gather env owner repo)) = ?info"
    by (simp add: gather_def get_repo_info_def repo_info_payload_def)
  from assms have t: "truthy ?info"
    by (auto simp: get_comprehensive_stats_def assemble_def Let_def info split: if_splits)
  from assms t obtain tc repository metrics where
    tc: "total_commits_of (PList ws) = Inr tc"
    and rep: "repository_section ?info = Inr repository"
    and met: "metrics_section ?info (PList cs) (PDict pulls) (PDict issues) tc = Inr metrics"
    and r: "r = PDict
       [(''status'', PStr ''success''),
        (''repo'', PStr (owner @ ''/'' @ repo)),
        (''repository'', repository),
        (''contributors'', PList cs),
        (''pull_requests'', PDict pulls),
        (''issues'', PDict issues),
        (''commit_activity'', PList ws),
        (''languages'', recover (PDict []) (get_languages env owner repo)),
        (''releases'', recover (PList []) (get_releases env owner repo 10)),
        (''metrics'', metrics)]"
    unfolding get_comprehensive_stats_def assemble_def Let_def info
    by (auto simp: gather_def cs ws pulls issues bind_err_Inr py_dict_Inr list_all2_Cons1)
  note tcv = total_commits_of_value[OF tc]
  from metrics_section_value[OF pulls(2) issues(2) repository_section_dict[OF rep], of cs tc] met
  obtain stars forks where "metrics = PDict [(''total_contributors'', PInt (int (length cs))),
                  (''total_commits_recent'', PInt (sum_list (map week_total ws))),
                  (''stars'', stars), (''forks'', forks),
                  (''open_prs'', PInt n_prs), (''open_issues'', PInt n_issues)]"
    unfolding tcv by auto
  with t rep cs pulls issues ws r show ?thesis by blast
qed


text \<open>Success whenever the repository info is well formed and the commits can be added.\<close>

lemma stats_success:
  assumes wf: "well_formed_repo_info (repo_info_payload env owner repo)"
    and tc: "total_commits_of (recover (PList []) (get_commit_activity env owner repo)) = Inr tc"
  shows "\<exists>r cs metrics.
     get_comprehensive_stats env owner repo = Inr r \<and>
     recover (PList []) (get_contributors env owner repo 30) = PList cs \<and>
     field ''status'' r = PStr ''success'' \<and>
     field ''contributors'' r = PList cs \<and>
     field ''metrics'' r = PDict metrics \<and>
     map_of metrics ''total_contributors'' = Some (PInt (int (length cs)))"
proof -
  let ?info = "repo_info_payload env owner repo"
  obtain cs where cs: "recover (PList []) (get_contributors env owner repo 30) = PList cs"
    using recovered_contributors by blast
  obtain pulls n_prs where pulls:
    "recover empty_pull_requests (get_pull_requests env owner repo ''all'' 50) = PDict pulls"
    "map_of pulls ''open'' = Some (PInt n_prs)"
    using recovered_pull_requests by blast
  obtain issues n_issues where issues:
    "recover empty_issues (get_issues env owner repo ''all'' 50) = PDict issues"
    "map_of issues ''open'' = Some (PInt n_issues)"
    using recovered_issues by blast
  have info: "recover PNone (g_repo_info (gather env owner repo)) = ?info"
    by (simp add: gather_def get_repo_info_def repo_info_payload_def)
  from wf have t: "truthy ?info" and d: "is_dict ?info"
    by (cases ?info; simp)+
  obtain repository where rep: "repository_section ?info = Inr repository"
    using repository_section_total[OF wf] by blast
  note met = metrics_section_value[OF pulls(2) issues(2) d, of cs tc]
  have "get_comprehensive_stats env owner repo =
          Inr (PDict
       [(''status'', PStr ''success''),
        (''repo'', PStr (owner @ ''/'' @ repo)),
        (''repository'', repository),
        (''contributors'', PList cs),
        (''pull_requests'', PDict pulls),
        (''issues'', PDict issues),
        (''commit_activity'', recover (PList []) (get_commit_activity env owner repo)),
        (''languages'', recover (PDict []) (get_languages env owner repo)),
        (''releases'', recover (PList []) (get_releases env owner repo 10)),
        (''metrics'',
           PDict [(''total_contributors'', PInt (int (length cs))),
                       (''total_commits_recent'', tc),
                       (''stars'', case map_of (case ?info of PDict kvs \<Rightarrow> kvs) ''stargazers_count'' of
                                     None \<Rightarrow> PInt 0 | Some v \<Rightarrow> v),
                       (''forks'', case map_of (case ?info of PDict kvs \<Rightarrow> kvs) ''forks_count'' of
                                     None \<Rightarrow> PInt 0 | Some v \<Rightarrow> v),
                       (''open_prs'', PInt n_prs),
                       (''open_issues'', PInt n_issues)])])"
    unfolding get_comprehensive_stats_def assemble_def Let_def info
    using t by (simp add: gather_def cs pulls issues tc rep met py_dict_def)
  with cs show ?thesis by simp
qed

lemma absent_commit_activity:
  "activity_payload env owner repo = PNone \<Longrightarrow>
     get_commit_activity env owner repo = Inr (PList [])"
  by (simp add: get_commit_activity_def activity_payload_def Let_def)



text \<open>
  Claim C3. When the repository-info fetch yields nothing (or any false value),
  \<open>get_comprehensive_stats\<close> raises the ValueError that names \<open>owner/repo\<close>, whatever
  the other six fetches did. No other category can make the operation fail by being
  absent: with well-formed repository info the operation succeeds when the commit
  activity is absent or has numeric totals, and nothing is asked of the remaining
  categories.
\<close>

theorem repository_not_found:
  "(\<not> truthy (repo_info_payload env owner repo) \<longrightarrow>
      get_comprehensive_stats env owner repo = Inl (ValueError (not_found_message owner repo)) \<and>
      sublist (owner @ ''/'' @ repo) (not_found_message owner repo)) \<and>
   (well_formed_repo_info (repo_info_payload env owner repo) \<and>
    (activity_payload env owner repo = PNone \<or>
     (\<exists>ca. get_commit_activity env owner repo = Inr ca \<and> countable ca)) \<longrightarrow>
      (\<exists>r. get_comprehensive_stats env owner repo = Inr r \<and>
           field ''status'' r = PStr ''success''))"
proof (intro conjI impI)
  assume "\<not> truthy (repo_info_payload env owner repo)"
  then show "get_comprehensive_stats env owner repo =
               Inl (ValueError (not_found_message owner repo))"
    by (simp add: get_comprehensive_stats_def assemble_def Let_def gather_def get_repo_info_def
        repo_info_payload_def)
next
  show "sublist (owner @ ''/'' @ repo) (not_found_message owner repo)"
    unfolding sublist_def not_found_message_def
    by (rule exI[of _ "''Repository ''"], rule exI[of _ "'' not found''"]) simp
next
  assume h: "well_formed_repo_info (repo_info_payload env owner repo) \<and>
    (activity_payload env owner repo = PNone \<or>
     (\<exists>ca. get_commit_activity env owner repo = Inr ca \<and> countable ca))"
  then have "\<exists>tc. total_commits_of (recover (PList []) (get_commit_activity env owner repo)) = Inr tc"
  proof (elim conjE disjE exE)
    assume "activity_payload env owner repo = PNone"
    then show ?thesis
      by (simp add: absent_commit_activity total_commits_of_def)
  next
    fix ca assume "get_commit_activity env owner repo = Inr ca" "countable ca"
    then show ?thesis
      using total_commits_of_countable[of ca] by simp
  qed
  then obtain tc where
    "total_commits_of (recover (PList []) (get_commit_activity env owner repo)) = Inr tc" ..
  from stats_success[OF _ this] h
  show "\<exists>r. get_comprehensive_stats env owner repo = Inr r \<and> field ''status'' r = PStr ''success''"
    by blast
qed


lemma unknown_env_facts:
  "\<not> truthy (repo_info_payload unknown_env ''octocat'' ''hello'')"
  "not_found_message ''octocat'' ''hello'' = ''Repository octocat/hello not found''"
  by code_simp+

lemma bare_env_facts:
  "well_formed_repo_info (repo_info_payload bare_env ''octocat'' ''hello'')"
  "activity_payload bare_env ''octocat'' ''hello'' = PNone"
  "contributors_payload bare_env ''octocat'' ''hello'' 30 = PNone"
  "pulls_payload bare_env ''octocat'' ''hello'' ''all'' 50 = PNone"
  "issues_payload bare_env ''octocat'' ''hello'' ''all'' 50 = PNone"
  by code_simp+

theorem repository_not_found_witness:
  "\<not> truthy (repo_info_payload unknown_env ''octocat'' ''hello'') \<and>
   get_comprehensive_stats unknown_env ''octocat'' ''hello'' =
     Inl (ValueError ''Repository octocat/hello not found'') \<and>
   well_formed_repo_info (repo_info_payload bare_env ''octocat'' ''hello'') \<and>
   activity_payload bare_env ''octocat'' ''hello'' = PNone \<and>
   contributors_payload bare_env ''octocat'' ''hello'' 30 = PNone \<and>
   pulls_payload bare_env ''octocat'' ''hello'' ''all'' 50 = PNone \<and>
   issues_payload bare_env ''octocat'' ''hello'' ''all'' 50 = PNone \<and>
   (\<exists>r. get_comprehensive_stats bare_env ''octocat'' ''hello'' = Inr r \<and>
        field ''status'' r = PStr ''success'')"
proof -
  from repository_not_found[of unknown_env "''octocat''" "''hello''"] unknown_env_facts
  have a: "get_comprehensive_stats unknown_env ''octocat'' ''hello'' =
     Inl (ValueError ''Repository octocat/hello not found'')"
    by simp
  from repository_not_found[of bare_env "''octocat''" "''hello''"] bare_env_facts(1,2)
  have b: "\<exists>r. get_comprehensive_stats bare_env ''octocat'' ''hello'' = Inr r \<and>
        field ''status'' r = PStr ''success''"
    by blast
  from a b unknown_env_facts(1) bare_env_facts show ?thesis by blast
qed






text \<open>
  Claim C8. In every successful result the metrics are read off the sections of the same
  result: the contributor count is the length of the contributors, the recent commits
  are the sum of the totals of the commit-activity entries, and the open pull requests
  and open issues are the open counters of the two sections. \<open>assemble\<close>, which builds
  them, has the gathered values as its only input.
\<close>

theorem comprehensive_metrics:
  "get_comprehensive_stats env owner repo = Inr r \<longrightarrow>
     (\<exists>contributors weeks pulls issues metrics n_prs n_issues.
        field ''contributors'' r = PList contributors \<and>
        field ''commit_activity'' r = PList weeks \<and>
        field ''pull_requests'' r = PDict pulls \<and> map_of pulls ''open'' = Some n_prs \<and>
        field ''issues'' r = PDict issues \<and> map_of issues ''open'' = Some n_issues \<and>
        field ''metrics'' r = PDict metrics \<and>
        map_of metrics ''total_contributors'' = Some (PInt (int (length contributors))) \<and>
        map_of metrics ''total_commits_recent'' = Some (PInt (sum_list (map week_total weeks))) \<and>
        map_of metrics ''open_prs'' = Some n_prs \<and>
        map_of metrics ''open_issues'' = Some n_issues)"
proof
  assume "get_comprehensive_stats env owner repo = Inr r"
  from stats_result[OF this]
  obtain repository cs pulls issues ws n_prs n_issues stars forks where
    pulls: "map_of pulls ''open'' = Some n_prs"
    and issues: "map_of issues ''open'' = Some n_issues"
    and r: "r = PDict
       [(''status'', PStr ''success''),
        (''repo'', PStr (owner @ ''/'' @ repo)),
        (''repository'', repository),
        (''contributors'', PList cs),
        (''pull_requests'', PDict pulls),
        (''issues'', PDict issues),
        (''commit_activity'', PList ws),
        (''languages'', recover (PDict []) (get_languages env owner repo)),
        (''releases'', recover (PList []) (get_releases env owner repo 10)),
        (''metrics'',
           PDict [(''total_contributors'', PInt (int (length cs))),
                  (''total_commits_recent'', PInt (sum_list (map week_total ws))),
                  (''stars'', stars), (''forks'', forks),
                  (''open_prs'', n_prs), (''open_issues'', n_issues)])]"
    by blast
  show "\<exists>contributors weeks pulls issues metrics n_prs n_issues.
        field ''contributors'' r = PList contributors \<and>
        field ''commit_activity'' r = PList weeks \<and>
        field ''pull_requests'' r = PDict pulls \<and> map_of pulls ''open'' = Some n_prs \<and>
        field ''issues'' r = PDict issues \<and> map_of issues ''open'' = Some n_issues \<and>
        field ''metrics'' r = PDict metrics \<and>
        map_of metrics ''total_contributors'' = Some (PInt (int (length contributors))) \<and>
        map_of metrics ''total_commits_recent'' = Some (PInt (sum_list (map week_total weeks))) \<and>
        map_of metrics ''open_prs'' = Some n_prs \<and>
        map_of metrics ''open_issues'' = Some n_issues"
    apply (rule exI[of _ cs], rule exI[of _ ws], rule exI[of _ pulls], rule exI[of _ issues])
    apply (rule exI[of _ "[(''total_contributors'', PInt (int (length cs))),
                  (''total_commits_recent'', PInt (sum_list (map week_total ws))),
                  (''stars'', stars), (''forks'', forks),
                  (''open_prs'', n_prs), (''open_issues'', n_issues)]"])
    apply (rule exI[of _ n_prs], rule exI[of _ n_issues])
    using pulls issues by (simp add: r)
qed

lemma sample_stats:
  "case get_comprehensive_stats sample_env ''octocat'' ''hello'' of
     Inl e \<Rightarrow> False
   | Inr r \<Rightarrow>
       field ''metrics'' r =
         PDict [(''total_contributors'', PInt 2), (''total_commits_recent'', PInt 174),
                (''stars'', PInt 42), (''forks'', PInt 7),
                (''open_prs'', PInt 1), (''open_issues'', PInt 1)]"
  by code_simp

theorem comprehensive_metrics_witness:
  "\<exists>r contributors weeks pulls issues.
     get_comprehensive_stats sample_env ''octocat'' ''hello'' = Inr r \<and>
     field ''metrics'' r =
       PDict [(''total_contributors'', PInt 2), (''total_commits_recent'', PInt 174),
              (''stars'', PInt 42), (''forks'', PInt 7),
              (''open_prs'', PInt 1), (''open_issues'', PInt 1)] \<and>
     field ''contributors'' r = PList contributors \<and> length contributors = 2 \<and>
     field ''commit_activity'' r = PList weeks \<and> sum_list (map week_total weeks) = 174 \<and>
     field ''pull_requests'' r = PDict pulls \<and> map_of pulls ''open'' = Some (PInt 1) \<and>
     field ''issues'' r = PDict issues \<and> map_of issues ''open'' = Some (PInt 1)"
proof -
  obtain r where run: "get_comprehensive_stats sample_env ''octocat'' ''hello'' = Inr r"
    and metrics: "field ''metrics'' r =
       PDict [(''total_contributors'', PInt 2), (''total_commits_recent'', PInt 174),
              (''stars'', PInt 42), (''forks'', PInt 7),
              (''open_prs'', PInt 1), (''open_issues'', PInt 1)]"
    using sample_stats
    by (cases "get_comprehensive_stats sample_env ''octocat'' ''hello''") auto
  from comprehensive_metrics[of sample_env "''octocat''" "''hello''" r] run metrics
  show ?thesis by fastforce
qed

section \<open>Properties of the request handler\<close>

lemma bind_err_Inl:
  "bind_err m f = Inl e \<longleftrightarrow> m = Inl e \<or> (\<exists>v. m = Inr v \<and> f v = Inl e)"
  by (cases m) auto

lemma map_err_Inl: "map_err f xs = Inl e \<Longrightarrow> \<exists>x \<in> set xs. f x = Inl e"
  by (induction xs) (auto split: sum.splits)

lemma py_dict_Inl:
  assumes "py_dict fs = Inl e"
  shows "\<exists>f \<in> set fs. snd f = Inl e"
proof -
  from assms
  have "map_err (\<lambda>(k, m). case m of Inl e \<Rightarrow> Inl e | Inr v \<Rightarrow> Inr (k, v)) fs = Inl e"
    by (auto simp: py_dict_def split: sum.splits)
  from map_err_Inl[OF this] obtain k m where "(k, m) \<in> set fs"
    "(case m of Inl e \<Rightarrow> Inl e | Inr v \<Rightarrow> Inr (k, v)) = Inl e"
    by auto
  then have "(k, m) \<in> set fs" "snd (k, m) = Inl e"
    by (auto split: sum.splits)
  then show ?thesis by blast
qed

lemma py_get_error: "py_get v key dflt = Inl e \<Longrightarrow> \<not> is_ValueError e"
  by (cases v) auto

lemma py_get2_error: "py_get2 v k1 k2 = Inl e \<Longrightarrow> \<not> is_ValueError e"
  by (auto simp: py_get2_def bind_err_Inl dest: py_get_error)

lemma py_len_error: "py_len v = Inl e \<Longrightarrow> \<not> is_ValueError e"
  by (cases v) auto

lemma py_iter_error: "py_iter v = Inl e \<Longrightarrow> \<not> is_ValueError e"
  by (cases v) auto

lemma int_add_error: "int_add acc v = Inl e \<Longrightarrow> \<not> is_ValueError e"
  by (cases v) auto

lemma sum_totals_error: "sum_totals acc weeks = Inl e \<Longrightarrow> \<not> is_ValueError e"
  by (induction weeks arbitrary: acc)
    (auto simp: bind_err_Inl dest: py_get_error int_add_error)

lemma total_commits_of_error: "total_commits_of ca = Inl e \<Longrightarrow> \<not> is_ValueError e"
  by (auto simp: total_commits_of_def bind_err_Inl split: if_splits
      dest: py_iter_error sum_totals_error)

lemma license_name_error: "license_name info = Inl e \<Longrightarrow> \<not> is_ValueError e"
  by (auto simp: license_name_def bind_err_Inl split: if_splits
      dest: py_get_error py_get2_error)

lemma repository_section_error: "repository_section info = Inl e \<Longrightarrow> \<not> is_ValueError e"
  unfolding repository_section_def
  by (auto dest!: py_dict_Inl
      dest: py_get_error[OF sym] license_name_error[OF sym])

lemma metrics_section_error:
  "metrics_section info cs pulls issues tc = Inl e \<Longrightarrow> \<not> is_ValueError e"
  unfolding metrics_section_def
  by (auto dest!: py_dict_Inl dest: py_get_error[OF sym] py_len_error[OF sym])

text \<open>The only ValueError of the comprehensive fetch is the one for a missing repository.\<close>

lemma stats_error:
  assumes "get_comprehensive_stats env owner repo = Inl e"
  shows "(if truthy (repo_info_payload env owner repo) then \<not> is_ValueError e
          else e = ValueError (not_found_message owner repo))"
proof (cases "truthy (repo_info_payload env owner repo)")
  case False
  with assms show ?thesis
    by (simp add: get_comprehensive_stats_def assemble_def Let_def gather_def get_repo_info_def
        repo_info_payload_def)
next
  case True
  then have t: "truthy (recover PNone (g_repo_info (gather env owner repo)))"
    by (simp add: gather_def get_repo_info_def repo_info_payload_def)
  from assms have "\<not> is_ValueError e"
    unfolding get_comprehensive_stats_def assemble_def Let_def
    using t
    by (auto simp: bind_err_Inl dest!: py_dict_Inl
        dest: total_commits_of_error repository_section_error[OF sym]
          metrics_section_error[OF sym])
  with True show ?thesis by simp
qed

lemma try_patterns_error: "try_patterns ps s = Inl e \<Longrightarrow> is_ValueError e"
  by (induction ps) (auto split: option.splits list.splits)

lemma parse_repo_url_error: "parse_repo_url u = Inl e \<Longrightarrow> is_ValueError e"
  by (auto simp: parse_repo_url_def dest: try_patterns_error)

text \<open>How the handler maps the outcomes when a token is configured.\<close>

lemma analyze_repository_outcomes:
  "parse_repo_url u = Inl e \<Longrightarrow> analyze_repository env u = HTTPException 400 (str_of_error e)"
  "parse_repo_url u = Inr (owner, repo) \<Longrightarrow> token_configured env \<Longrightarrow>
     \<not> truthy (repo_info_payload env owner repo) \<Longrightarrow>
     analyze_repository env u = HTTPException 404 (not_found_message owner repo)"
  "parse_repo_url u = Inr (owner, repo) \<Longrightarrow> token_configured env \<Longrightarrow>
     truthy (repo_info_payload env owner repo) \<Longrightarrow>
     get_comprehensive_stats env owner repo = Inl e \<Longrightarrow>
     analyze_repository env u =
       HTTPException 500 (''Failed to analyze repository: '' @ str_of_error e)"
  "parse_repo_url u = Inr (owner, repo) \<Longrightarrow> token_configured env \<Longrightarrow>
     get_comprehensive_stats env owner repo = Inr r \<Longrightarrow>
     analyze_repository env u = Returned r"
proof -
  show "parse_repo_url u = Inl e \<Longrightarrow> analyze_repository env u = HTTPException 400 (str_of_error e)"
    by (simp add: analyze_repository_def parse_repo_url_error)
next
  assume p: "parse_repo_url u = Inr (owner, repo)" and t: "token_configured env"
  from t have init: "service_init env = Inr ()"
    by (auto simp: service_init_def token_configured_def split: option.splits)
  {
    assume nf: "\<not> truthy (repo_info_payload env owner repo)"
    then have "get_comprehensive_stats env owner repo =
                 Inl (ValueError (not_found_message owner repo))"
      by (simp add: get_comprehensive_stats_def assemble_def Let_def gather_def
          get_repo_info_def repo_info_payload_def)
    then show "analyze_repository env u = HTTPException 404 (not_found_message owner repo)"
      by (simp add: analyze_repository_def p init map_failure_def)
  }
  {
    assume tr: "truthy (repo_info_payload env owner repo)"
      and f: "get_comprehensive_stats env owner repo = Inl e"
    from stats_error[OF f] tr have "\<not> is_ValueError e" by simp
    then show "analyze_repository env u =
       HTTPException 500 (''Failed to analyze repository: '' @ str_of_error e)"
      by (simp add: analyze_repository_def p init f map_failure_def)
  }
  {
    assume "get_comprehensive_stats env owner repo = Inr r"
    then show "analyze_repository env u = Returned r"
      by (simp add: analyze_repository_def p init)
  }
qed

text \<open>Without a token the constructor's ValueError takes the not-found path.\<close>

lemma analyze_repository_without_token:
  "parse_repo_url u = Inr (owner, repo) \<Longrightarrow> \<not> token_configured env \<Longrightarrow>
     analyze_repository env u =
       HTTPException 404 ''GitHub token not configured in environment variables''"
  by (auto simp: analyze_repository_def service_init_def token_configured_def map_failure_def
      split: option.splits)

text \<open>
  Claim C5. A parse failure gives 400 with the message that names both syntaxes, a missing
  repository gives 404 with \<open>owner/repo\<close>, and every other failure of the comprehensive
  fetch gives 500 with the failure's description (\<open>analyze_repository_outcomes\<close>). But the
  clause that answers 404 catches every ValueError, and the constructor of the service
  raises one when no token is configured: that failure, which is neither a parse failure
  nor a missing repository, is answered 404 and not 500, for a repository that exists.
\<close>

theorem missing_token_reported_as_not_found:
  "parse_repo_url ''octocat/hello'' = Inr (''octocat'', ''hello'') \<and>
   github_token tokenless_env = None \<and>
   truthy (repo_info_payload tokenless_env ''octocat'' ''hello'') \<and>
   analyze_repository tokenless_env ''octocat/hello'' =
     HTTPException 404 ''GitHub token not configured in environment variables''"
  by code_simp

end
